theory Spec2Isabelle
  imports Main
begin

section \<open>Data model\<close>

text \<open>
  The types of \<^verbatim>\<open>@changesets/types\<close> as the add command uses them. A bump type is a
  JavaScript string at run time, so \<open>type\<close> is a \<open>string\<close>; the optional field
  \<open>changeTypes\<close> is an \<open>option\<close> (\<open>None\<close> is \<^verbatim>\<open>undefined\<close>). The field \<^verbatim>\<open>text\<close> of a
  change-type option is called \<open>text'\<close> here. Of a package only \<^verbatim>\<open>packageJson\<close> (name and
  version) and \<^verbatim>\<open>dir\<close> are kept; of the configuration the two flags the collector reads.
\<close>

record PackageJSON =
  name :: string
  version :: string

record Package =
  packageJson :: PackageJSON
  dir :: string

record ChangeTypeOption =
  title :: string
  text' :: string

record ChangeType =
  description :: string
  category :: ChangeTypeOption

record Release =
  name :: string
  type :: string
  changeTypes :: "ChangeType list option"

record Changeset =
  releases :: "Release list"
  summary :: string
  confirmed :: bool

record Config =
  shouldAskForChangeTypes :: bool
  alwaysOpenEditor :: bool

text \<open>The object \<^verbatim>\<open>{ major, minor, patch, none }\<close> that \<^verbatim>\<open>groupByBumpType\<close> returns.\<close>

record Grouped =
  major :: "Release list"
  minor :: "Release list"
  patch :: "Release list"
  none :: "Release list"

section \<open>Strings\<close>

definition nl :: string where
  "nl = [CHR 0x0A]"

definition dq :: string where
  "dq = [CHR 0x22]"

text \<open>\<^verbatim>\<open>Array.prototype.join\<close> on an array of strings.\<close>

fun join :: "string \<Rightarrow> string list \<Rightarrow> string" where
  "join sep [] = []"
| "join sep [x] = x"
| "join sep (x # y # ys) = x @ sep @ join sep (y # ys)"

section \<open>The content renderer (writeChangeTypes.ts)\<close>

text \<open>
  \<^verbatim>\<open>groupByBumpType\<close>: one pass over the releases, each pushed at the end of a bucket. The
  last branch of the chain pushes to \<^verbatim>\<open>major\<close>; no branch pushes to \<^verbatim>\<open>none\<close>.
\<close>

definition pushRelease :: "Grouped \<Rightarrow> Release \<Rightarrow> Grouped" where
  "pushRelease g rel =
     (if type rel = ''major'' then g\<lparr>major := major g @ [rel]\<rparr>
      else if type rel = ''minor'' then g\<lparr>minor := minor g @ [rel]\<rparr>
      else if type rel = ''patch'' then g\<lparr>patch := patch g @ [rel]\<rparr>
      else g\<lparr>major := major g @ [rel]\<rparr>)"

definition groupByBumpType :: "Release list \<Rightarrow> Grouped" where
  "groupByBumpType rels =
     foldl pushRelease \<lparr>major = [], minor = [], patch = [], none = []\<rparr> rels"

text \<open>\<^verbatim>\<open>Object.entries\<close> of the grouped object: the keys in insertion order.\<close>

definition entries :: "Grouped \<Rightarrow> (string \<times> Release list) list" where
  "entries g = [(''major'', major g), (''minor'', minor g), (''patch'', patch g), (''none'', none g)]"

definition releaseLine :: "Release \<Rightarrow> string" where
  "releaseLine release = dq @ name release @ dq @ '': '' @ type release"

definition getReleasesSection :: "Release list \<Rightarrow> string" where
  "getReleasesSection rels =
     ''---'' @ nl @ ''  '' @ join nl (map releaseLine rels) @ nl @ ''  ---'' @ nl"

definition bulletLine :: "ChangeType \<Rightarrow> string" where
  "bulletLine chk = ''- [ '' @ title (category chk) @ '' ] '' @ description chk"

text \<open>
  The filter-map-join at the end of \<^verbatim>\<open>getChangeTypesSection\<close>; a description is kept
  when it is truthy, that is, not the empty string.
\<close>

definition bullets :: "ChangeType list \<Rightarrow> string" where
  "bullets cts = join nl (map bulletLine (filter (\<lambda>chk. description chk \<noteq> []) cts)) @ nl"

text \<open>
  \<^verbatim>\<open>rel.changeTypes || []\<close>, and the selection of the change types: with a (truthy) bump
  type, those of the first release of that type; without one, those of all releases.
\<close>

definition changeTypesOrEmpty :: "Release \<Rightarrow> ChangeType list" where
  "changeTypesOrEmpty rel = (case changeTypes rel of None \<Rightarrow> [] | Some cts \<Rightarrow> cts)"

definition selectChangeTypes :: "Release list \<Rightarrow> string option \<Rightarrow> ChangeType list" where
  "selectChangeTypes rels bumpType =
     (if bumpType \<noteq> None \<and> bumpType \<noteq> Some [] then
        (case filter (\<lambda>r. Some (type r) = bumpType) rels of
           [] \<Rightarrow> []
         | oneRelease # _ \<Rightarrow> changeTypesOrEmpty oneRelease)
      else concat (map changeTypesOrEmpty rels))"

definition getChangeTypesSection :: "Release list \<Rightarrow> string option \<Rightarrow> string" where
  "getChangeTypesSection rels bumpType = bullets (selectChangeTypes rels bumpType)"

definition groupSection :: "string \<times> Release list \<Rightarrow> string" where
  "groupSection e =
     getReleasesSection (snd e) @ nl @ ''  '' @ getChangeTypesSection (snd e) (Some (fst e))"

definition summaryTrailer :: "string \<Rightarrow> string" where
  "summaryTrailer summ = nl @ ''  '' @ nl @ ''  '' @ summ @ nl @ ''  ''"

text \<open>\<^verbatim>\<open>getChangesetContent\<close>; \<open>None\<close> is the \<^verbatim>\<open>null\<close> it returns without change types.\<close>

definition getChangesetContent :: "Release list \<Rightarrow> string \<Rightarrow> bool \<Rightarrow> string option" where
  "getChangesetContent rels summ splitReleasesByBumpType =
     (if splitReleasesByBumpType \<and> list_ex (\<lambda>rel. changeTypes rel \<noteq> None) rels then
        (let grouped = filter (\<lambda>e. snd e \<noteq> []) (entries (groupByBumpType rels))
         in Some (join nl (map groupSection grouped) @ summaryTrailer summ))
      else if list_ex (\<lambda>rel. changeTypes rel \<noteq> None) rels then
        Some (getReleasesSection rels @ '' '' @ nl @ ''    '' @ getChangeTypesSection rels None
              @ summaryTrailer summ)
      else None)"

section \<open>The collaborators\<close>

text \<open>
  Modelled from the spec: the prompt service (\<^verbatim>\<open>utils/cli-utilities\<close>), the store
  (\<^verbatim>\<open>@changesets/write\<close>), the version-control service (\<^verbatim>\<open>@changesets/git\<close>), the logger and
  \<^verbatim>\<open>printConfirmationMessage\<close> are not among the sources. A session is a \<open>World\<close>: for
  each kind of prompt the answers the user is going to give, in order, and a trace of
  what has been asked, logged, written and committed so far. A prompt takes the next
  answer of its kind and records the question in the trace; the prompt service enforces
  nothing about the answer. A prompt with no answer pending never comes back (there are no
  timeouts): the outcome is \<open>AwaitingInput\<close>. An editor answer \<open>None\<close> is the
  \<^verbatim>\<open>EditorError\<close> thrown by \<^verbatim>\<open>askQuestionWithEditor\<close>. Colours (\<^verbatim>\<open>chalk\<close>) are left out of all
  texts, and of a choice only its name is recorded.

  An exception is an \<open>error\<close>: \<open>ExitError\<close> with its code, \<open>TypeError\<close> for a property read
  on \<^verbatim>\<open>undefined\<close> (and for \<^verbatim>\<open>semver\<close> rejecting a version), \<open>Error\<close> with its message for
  \<^verbatim>\<open>new Error(...)\<close>.
\<close>

datatype event =
    AskCheckboxPlus string "(string \<times> string list) list"
  | AskConfirm string
  | AskList string "string list"
  | AskQuestion string
  | AskQuestionWithEditor string
  | Log string
  | LogError string
  | LogWarn string
  | LogInfo string
  | PrintConfirmationMessage Changeset bool
  | WriteChangeset Changeset string
  | GitAdd string string
  | GitCommit string string
  | SpawnEditor string

record World =
  checkboxAnswers :: "string list list"
  confirmAnswers :: "bool list"
  listAnswers :: "string list"
  questionAnswers :: "string list"
  editorAnswers :: "string option list"
  trace :: "event list"

datatype error = ExitError nat | TypeError | Error string | AwaitingInput

type_synonym 'a result = "error + 'a \<times> World"

definition emit :: "event \<Rightarrow> World \<Rightarrow> World" where
  "emit e w = w\<lparr>trace := trace w @ [e]\<rparr>"

definition askCheckboxPlus :: "string \<Rightarrow> (string \<times> string list) list \<Rightarrow> World \<Rightarrow> string list result" where
  "askCheckboxPlus message groups w =
     (case checkboxAnswers w of
        [] \<Rightarrow> Inl AwaitingInput
      | a # as \<Rightarrow> Inr (a, emit (AskCheckboxPlus message groups) (w\<lparr>checkboxAnswers := as\<rparr>)))"

definition askConfirm :: "string \<Rightarrow> World \<Rightarrow> bool result" where
  "askConfirm message w =
     (case confirmAnswers w of
        [] \<Rightarrow> Inl AwaitingInput
      | a # as \<Rightarrow> Inr (a, emit (AskConfirm message) (w\<lparr>confirmAnswers := as\<rparr>)))"

definition askList :: "string \<Rightarrow> string list \<Rightarrow> World \<Rightarrow> string result" where
  "askList message choices w =
     (case listAnswers w of
        [] \<Rightarrow> Inl AwaitingInput
      | a # as \<Rightarrow> Inr (a, emit (AskList message choices) (w\<lparr>listAnswers := as\<rparr>)))"

definition askQuestion :: "string \<Rightarrow> World \<Rightarrow> string result" where
  "askQuestion message w =
     (case questionAnswers w of
        [] \<Rightarrow> Inl AwaitingInput
      | a # as \<Rightarrow> Inr (a, emit (AskQuestion message) (w\<lparr>questionAnswers := as\<rparr>)))"

definition askQuestionWithEditor :: "string \<Rightarrow> World \<Rightarrow> string option result" where
  "askQuestionWithEditor message w =
     (case editorAnswers w of
        [] \<Rightarrow> Inl AwaitingInput
      | a # as \<Rightarrow> Inr (a, emit (AskQuestionWithEditor message) (w\<lparr>editorAnswers := as\<rparr>)))"

section \<open>Release selection\<close>

text \<open>
  \<^verbatim>\<open>confirmMajorRelease\<close>. The comparison \<^verbatim>\<open>semver.lt\<close> belongs to an external library and
  is a parameter: \<open>semver_lt v v'\<close> is \<open>Some b\<close> when it returns \<open>b\<close> and \<open>None\<close> when it throws.
\<close>

definition confirmMajorRelease ::
  "(string \<Rightarrow> string \<Rightarrow> bool option) \<Rightarrow> PackageJSON \<Rightarrow> World \<Rightarrow> bool result" where
  "confirmMajorRelease semver_lt pkgJSON w =
     (case semver_lt (version pkgJSON) ''1.0.0'' of
        None \<Rightarrow> Inl TypeError
      | Some True \<Rightarrow>
          askConfirm
            (''Are you sure you want to release the first major version of ''
               @ PackageJSON.name pkgJSON @ ''?'')
            (emit (Log (''If you are unsure if this is correct, contact the package's maintainers ''
                          @ ''before committing this changeset.''))
               (emit (Log (''WARNING: Releasing a major version for '' @ PackageJSON.name pkgJSON
                             @ '' will be its first major release.'')) w))
      | Some False \<Rightarrow> Inr (True, w))"

definition askInitialReleaseQuestion :: "(string \<times> string list) list \<Rightarrow> World \<Rightarrow> string list result" where
  "askInitialReleaseQuestion defaultChoiceList w =
     askCheckboxPlus ''Which packages would you like to include?'' defaultChoiceList w"

function retryInitialReleaseQuestion :: "(string \<times> string list) list \<Rightarrow> World \<Rightarrow> string list result" where
  "retryInitialReleaseQuestion defaultChoiceList w =
     (case askInitialReleaseQuestion defaultChoiceList
             (emit (LogError ''(You most likely hit enter instead of space!)'')
                (emit (LogError ''You must select at least one package to release'') w)) of
        Inl e \<Rightarrow> Inl e
      | Inr (packagesToRelease, w') \<Rightarrow>
          if length packagesToRelease = 0 then retryInitialReleaseQuestion defaultChoiceList w'
          else Inr (packagesToRelease, w'))"
  by pat_completeness auto
termination
  by (relation "measure (\<lambda>(g, w). length (checkboxAnswers w))")
     (auto simp: askInitialReleaseQuestion_def askCheckboxPlus_def emit_def split: list.splits)

declare retryInitialReleaseQuestion.simps [simp del]

text \<open>
  The \<^verbatim>\<open>do ... while\<close> loop of \<^verbatim>\<open>getPackagesToRelease\<close> is \<open>retryInitialReleaseQuestion\<close>: it
  consumes one pending answer at each turn, which is its termination measure.

  The two groups offered by the initial question (the local \<^verbatim>\<open>defaultChoiceList\<close> of
  \<^verbatim>\<open>getPackagesToRelease\<close>): an empty group is left out.
\<close>

definition defaultChoiceList :: "string list \<Rightarrow> Package list \<Rightarrow> (string \<times> string list) list" where
  "defaultChoiceList changedPackages allPackages =
     filter (\<lambda>g. length (snd g) \<noteq> 0)
       [(''changed packages'', changedPackages),
        (''unchanged packages'',
         filter (\<lambda>n. n \<notin> set changedPackages)
           (map (\<lambda>p. PackageJSON.name (packageJson p)) allPackages))]"

definition getPackagesToRelease :: "string list \<Rightarrow> Package list \<Rightarrow> World \<Rightarrow> string list result" where
  "getPackagesToRelease changedPackages allPackages w =
     (if length allPackages > 1 then
        (case askInitialReleaseQuestion (defaultChoiceList changedPackages allPackages) w of
           Inl e \<Rightarrow> Inl e
         | Inr (packagesToRelease, w1) \<Rightarrow>
             (case (if length packagesToRelease = 0
                    then retryInitialReleaseQuestion
                           (defaultChoiceList changedPackages allPackages) w1
                    else Inr (packagesToRelease, w1)) of
                Inl e \<Rightarrow> Inl e
              | Inr (packagesToRelease', w2) \<Rightarrow>
                  Inr (filter (\<lambda>pkgName. pkgName \<noteq> ''changed packages''
                                  \<and> pkgName \<noteq> ''unchanged packages'') packagesToRelease', w2)))
      else (case allPackages of
              [] \<Rightarrow> Inl TypeError
            | p # _ \<Rightarrow> Inr ([PackageJSON.name (packageJson p)], w)))"

definition formatPkgNameAndVersion :: "string \<Rightarrow> string \<Rightarrow> string" where
  "formatPkgNameAndVersion pkgName ver = pkgName @ ''@'' @ ver"

definition getBumpTypeTitle :: "string \<Rightarrow> string" where
  "getBumpTypeTitle bumpType = ''Which packages should have a '' @ bumpType @ '' bump?''"

text \<open>The table \<^verbatim>\<open>bumpTypes\<close>; a title is its type in colour, so one string stands for both.\<close>

definition bumpTypes :: "string list" where
  "bumpTypes = [''major'', ''minor'', ''patch'', ''none'']"

text \<open>
  \<^verbatim>\<open>new Map(entries)\<close>: a later entry for the same key replaces an earlier one;
  \<^verbatim>\<open>new Set(xs)\<close> and \<^verbatim>\<open>[...set]\<close>: the distinct elements in the order of their first
  insertion; \<^verbatim>\<open>set.delete(x)\<close>.
\<close>

definition newMap :: "Package list \<Rightarrow> (string \<rightharpoonup> PackageJSON)" where
  "newMap allPackages =
     map_of (rev (map (\<lambda>p. (PackageJSON.name (packageJson p), packageJson p)) allPackages))"

definition setAdd :: "'a list \<Rightarrow> 'a \<Rightarrow> 'a list" where
  "setAdd s x = (if x \<in> set s then s else s @ [x])"

definition newSet :: "'a list \<Rightarrow> 'a list" where
  "newSet xs = foldl setAdd [] xs"

definition setDelete :: "'a \<Rightarrow> 'a list \<Rightarrow> 'a list" where
  "setDelete x s = removeAll x s"

definition choosePkgsForBumpType ::
  "string \<Rightarrow> string list \<Rightarrow> (string \<rightharpoonup> PackageJSON) \<Rightarrow> World \<Rightarrow> string list result" where
  "choosePkgsForBumpType ttl packages pkgJsonsByName w =
     (case those (map pkgJsonsByName packages) of
        None \<Rightarrow> Inl TypeError
      | Some _ \<Rightarrow>
          (case askCheckboxPlus ttl [(''all packages'', packages)] w of
             Inl e \<Rightarrow> Inl e
           | Inr (chosen, w') \<Rightarrow> Inr (filter (\<lambda>x. x \<noteq> ''all packages'') chosen, w')))"

fun logPackages :: "string list \<Rightarrow> (string \<rightharpoonup> PackageJSON) \<Rightarrow> World \<Rightarrow> unit result" where
  "logPackages [] pkgJsonsByName w = Inr ((), w)"
| "logPackages (pkgName # rest) pkgJsonsByName w =
     (case pkgJsonsByName pkgName of
        None \<Rightarrow> Inl TypeError
      | Some pkgJson \<Rightarrow>
          logPackages rest pkgJsonsByName
            (emit (Log (formatPkgNameAndVersion pkgName (version pkgJson))) w))"

definition logRestWillBeBumped ::
  "string \<Rightarrow> string list \<Rightarrow> (string \<rightharpoonup> PackageJSON) \<Rightarrow> World \<Rightarrow> unit result" where
  "logRestWillBeBumped bumpType packages pkgJsonsByName w =
     logPackages packages pkgJsonsByName
       (emit (Log (''The following packages will be '' @ bumpType @ '' bumped:'')) w)"

text \<open>
  The inner loop of the multi-package branch of \<^verbatim>\<open>createChangeset\<close> (lines 192-201): the
  state is the set \<^verbatim>\<open>pkgsLeftToGetBumpTypeFor\<close> and the array \<^verbatim>\<open>releases\<close>. A declined
  first major release is the \<^verbatim>\<open>continue\<close>: neither is touched.
\<close>

fun releasePkgs ::
  "(string \<Rightarrow> string \<Rightarrow> bool option) \<Rightarrow> string \<Rightarrow> (string \<rightharpoonup> PackageJSON) \<Rightarrow> string list
     \<Rightarrow> string list \<times> Release list \<Rightarrow> World \<Rightarrow> (string list \<times> Release list) result" where
  "releasePkgs semver_lt bump pkgJsonsByName [] st w = Inr (st, w)"
| "releasePkgs semver_lt bump pkgJsonsByName (pkgName # rest) st w =
     (if bump = ''major'' then
        (case pkgJsonsByName pkgName of
           None \<Rightarrow> Inl TypeError
         | Some pkgJson \<Rightarrow>
             (case confirmMajorRelease semver_lt pkgJson w of
                Inl e \<Rightarrow> Inl e
              | Inr (shouldReleaseFirstMajor, w') \<Rightarrow>
                  if \<not> shouldReleaseFirstMajor
                  then releasePkgs semver_lt bump pkgJsonsByName rest st w'
                  else releasePkgs semver_lt bump pkgJsonsByName rest
                         (setDelete pkgName (fst st),
                          snd st @ [\<lparr>name = pkgName, type = bump, changeTypes = None\<rparr>]) w'))
      else releasePkgs semver_lt bump pkgJsonsByName rest
             (setDelete pkgName (fst st),
              snd st @ [\<lparr>name = pkgName, type = bump, changeTypes = None\<rparr>]) w)"

text \<open>
  The loop over \<^verbatim>\<open>bumpTypes.entries()\<close> (lines 173-202), from index \<open>i\<close> on; the \<^verbatim>\<open>break\<close>
  leaves it as soon as no package is left.
\<close>

fun bumpLoop ::
  "(string \<Rightarrow> string \<Rightarrow> bool option) \<Rightarrow> (string \<rightharpoonup> PackageJSON) \<Rightarrow> nat \<Rightarrow> string list
     \<Rightarrow> string list \<times> Release list \<Rightarrow> World \<Rightarrow> (string list \<times> Release list) result" where
  "bumpLoop semver_lt pkgJsonsByName i [] st w = Inr (st, w)"
| "bumpLoop semver_lt pkgJsonsByName i (bump # rest) st w =
     (let packages = fst st;
          isLast = (i = length bumpTypes - 1)
      in if length packages = 0 then Inr (st, w)
         else
           (case (if isLast then
                    (case logRestWillBeBumped bump packages pkgJsonsByName w of
                       Inl e \<Rightarrow> Inl e
                     | Inr (_, w1) \<Rightarrow> Inr (packages, w1))
                  else choosePkgsForBumpType (getBumpTypeTitle bump) packages pkgJsonsByName w) of
              Inl e \<Rightarrow> Inl e
            | Inr (pkgsForThisBumpType, w1) \<Rightarrow>
                (case releasePkgs semver_lt bump pkgJsonsByName pkgsForThisBumpType st w1 of
                   Inl e \<Rightarrow> Inl e
                 | Inr (st', w2) \<Rightarrow> bumpLoop semver_lt pkgJsonsByName (Suc i) rest st' w2)))"

section \<open>The summary collector\<close>

text \<open>
  \<^verbatim>\<open>setSummary\<close> of the collector and the last part of \<^verbatim>\<open>createChangeset\<close> (lines 220-256)
  are the same statements, except that only \<^verbatim>\<open>setSummary\<close> reads \<^verbatim>\<open>config.alwaysOpenEditor\<close>:
  \<open>announceSummary\<close> is the two log lines, \<open>readSummary\<close> the rest, returning the summary and
  the \<^verbatim>\<open>confirmed\<close> flag; \<open>askAgain\<close> is what follows the \<^verbatim>\<open>try\<close> block.
\<close>

definition editorPlaceholder :: string where
  "editorPlaceholder =
     nl @ nl @ ''# Please enter a summary for your changes.'' @ nl
        @ ''# An empty message aborts the editor.''"

text \<open>
  The reminder of the retry loop. The two copies of the summary step spell it with
  different bytes after the exclamation mark: \<^verbatim>\<open>setSummary\<close> has the four bytes of an emoji,
  \<^verbatim>\<open>createChangeset\<close> (line 247) has eight bytes. The retry loop therefore takes the reminder
  as an argument.
\<close>

definition summaryReminder :: string where
  "summaryReminder =
     nl @ nl @ ''# A summary is required for the changelog! '' @ [CHR 0xF0, CHR 0x9F, CHR 0x98, CHR 0xAA]"

definition createChangesetReminder :: string where
  "createChangesetReminder =
     nl @ nl @ ''# A summary is required for the changelog! ''
        @ [CHR 0xC3, CHR 0xB0, CHR 0xC5, CHR 0xB8, CHR 0xCB, CHR 0x9C, CHR 0xC2, CHR 0xAA]"

text \<open>The \<^verbatim>\<open>while (summary.length === 0)\<close> loop.\<close>

function remindUntilAnswered :: "string \<Rightarrow> string \<Rightarrow> World \<Rightarrow> string result" where
  "remindUntilAnswered reminder summ w =
     (if length summ = 0 then
        (case askQuestion reminder w of
           Inl e \<Rightarrow> Inl e
         | Inr (summ', w') \<Rightarrow> remindUntilAnswered reminder summ' w')
      else Inr (summ, w))"
  by pat_completeness auto
termination
  by (relation "measure (\<lambda>(r, s, w). length (questionAnswers w))")
     (auto simp: askQuestion_def emit_def split: list.splits)

declare remindUntilAnswered.simps [simp del]

definition askAgain :: "string \<Rightarrow> World \<Rightarrow> (string \<times> bool) result" where
  "askAgain reminder w =
     (case askQuestion [] w of
        Inl e \<Rightarrow> Inl e
      | Inr (summ, w1) \<Rightarrow>
          (case remindUntilAnswered reminder summ w1 of
             Inl e \<Rightarrow> Inl e
           | Inr (summ', w2) \<Rightarrow> Inr ((summ', False), w2)))"

definition readSummary :: "string \<Rightarrow> bool \<Rightarrow> World \<Rightarrow> (string \<times> bool) result" where
  "readSummary reminder openEditor w =
     (case (if openEditor then Inr ([], w) else askQuestion ''Summary'' w) of
        Inl e \<Rightarrow> Inl e
      | Inr (summ, w1) \<Rightarrow>
          if length summ = 0 then
            (case askQuestionWithEditor editorPlaceholder w1 of
               Inl e \<Rightarrow> Inl e
             | Inr (None, w2) \<Rightarrow>
                 askAgain reminder
                   (emit (Log ''An error happened using external editor. Please type your summary here:'') w2)
             | Inr (Some edited, w2) \<Rightarrow>
                 if length edited > 0 then Inr ((edited, True), w2) else askAgain reminder w2)
          else Inr ((summ, False), w1))"

definition announceSummary :: "World \<Rightarrow> World" where
  "announceSummary w =
     emit (Log ''  (submit empty line to open external editor)'')
       (emit (Log ''Please enter a summary for this change (this will be in the changelogs).'') w)"

definition setSummary :: "Changeset \<Rightarrow> Config \<Rightarrow> World \<Rightarrow> Changeset result" where
  "setSummary changeSet config w =
     (case readSummary summaryReminder (alwaysOpenEditor config) (announceSummary w) of
        Inl e \<Rightarrow> Inl e
      | Inr ((summ, conf), w') \<Rightarrow> Inr (changeSet\<lparr>summary := summ, confirmed := conf\<rparr>, w'))"

section \<open>createChangeset\<close>

text \<open>
  The two branches of \<^verbatim>\<open>createChangeset\<close> that fill \<^verbatim>\<open>releases\<close>, and the function itself.
  With no package at all \<^verbatim>\<open>allPackages[0]\<close> is \<^verbatim>\<open>undefined\<close> and reading its \<^verbatim>\<open>packageJson\<close>
  throws.
\<close>

definition singlePackageRelease ::
  "(string \<Rightarrow> string \<Rightarrow> bool option) \<Rightarrow> Package list \<Rightarrow> World \<Rightarrow> Release list result" where
  "singlePackageRelease semver_lt allPackages w =
     (case allPackages of
        [] \<Rightarrow> Inl TypeError
      | pkg # _ \<Rightarrow>
          (case askList
                  (''What kind of change is this for '' @ PackageJSON.name (packageJson pkg)
                     @ ''? (current version is '' @ version (packageJson pkg) @ '')'')
                  [''patch'', ''minor'', ''major''] w of
             Inl e \<Rightarrow> Inl e
           | Inr (ty, w1) \<Rightarrow>
               if ty = ''major'' then
                 (case confirmMajorRelease semver_lt (packageJson pkg) w1 of
                    Inl e \<Rightarrow> Inl e
                  | Inr (shouldReleaseAsMajor, w2) \<Rightarrow>
                      if \<not> shouldReleaseAsMajor then Inl (ExitError 1)
                      else Inr ([\<lparr>name = PackageJSON.name (packageJson pkg), type = ty,
                                  changeTypes = None\<rparr>], w2))
               else Inr ([\<lparr>name = PackageJSON.name (packageJson pkg), type = ty,
                           changeTypes = None\<rparr>], w1)))"

definition multiPackageReleases ::
  "(string \<Rightarrow> string \<Rightarrow> bool option) \<Rightarrow> string list \<Rightarrow> Package list \<Rightarrow> World \<Rightarrow> Release list result" where
  "multiPackageReleases semver_lt changedPackages allPackages w =
     (case getPackagesToRelease changedPackages allPackages w of
        Inl e \<Rightarrow> Inl e
      | Inr (packagesToRelease, w1) \<Rightarrow>
          (case bumpLoop semver_lt (newMap allPackages) 0 bumpTypes
                  (newSet packagesToRelease, []) w1 of
             Inl e \<Rightarrow> Inl e
           | Inr (st, w2) \<Rightarrow> Inr (snd st, w2)))"

definition createChangeset ::
  "(string \<Rightarrow> string \<Rightarrow> bool option) \<Rightarrow> string list \<Rightarrow> Package list \<Rightarrow> World \<Rightarrow> Changeset result" where
  "createChangeset semver_lt changedPackages allPackages w =
     (case (if length allPackages > 1
            then multiPackageReleases semver_lt changedPackages allPackages w
            else singlePackageRelease semver_lt allPackages w) of
        Inl e \<Rightarrow> Inl e
      | Inr (rels, w1) \<Rightarrow>
          (case readSummary createChangesetReminder False (announceSummary w1) of
             Inl e \<Rightarrow> Inl e
           | Inr ((summ, conf), w2) \<Rightarrow>
               Inr (\<lparr>releases = rels, summary = summ, confirmed = conf\<rparr>, w2)))"

section \<open>The change-type collector\<close>

definition getChangeTypeList :: "ChangeTypeOption list \<Rightarrow> World \<Rightarrow> string list result" where
  "getChangeTypeList allChangeTypes w =
     askCheckboxPlus ''What kind of change are you making? (check all that apply)''
       (map (\<lambda>changeType. (title changeType, [])) allChangeTypes) w"

text \<open>The inner loop of \<^verbatim>\<open>getReleasesPerBumpType\<close>: one description per chosen category.\<close>

fun askDescriptions :: "ChangeTypeOption list \<Rightarrow> ChangeType list \<Rightarrow> World \<Rightarrow> ChangeType list result" where
  "askDescriptions [] changeTypeList w = Inr (changeTypeList, w)"
| "askDescriptions (cat # rest) changeTypeList w =
     (case askQuestion (''[ '' @ title cat @ '' ]'') w of
        Inl e \<Rightarrow> Inl e
      | Inr (descr, w') \<Rightarrow>
          askDescriptions rest (changeTypeList @ [\<lparr>description = descr, category = cat\<rparr>]) w')"

fun getReleasesPerBumpTypeLoop ::
  "string list \<Rightarrow> Release list \<Rightarrow> ChangeTypeOption list \<Rightarrow> Release list \<Rightarrow> World
     \<Rightarrow> Release list result" where
  "getReleasesPerBumpTypeLoop [] rels chosenChangeTypeList releaseWithChangeTypeList w =
     Inr (releaseWithChangeTypeList, w)"
| "getReleasesPerBumpTypeLoop (bumpType # rest) rels chosenChangeTypeList releaseWithChangeTypeList w =
     (let pkgsForThisBumpType =
            join '', '' (map Release.name (filter (\<lambda>rel. type rel = bumpType) rels));
          w0 = emit (Log (bumpType @ '' : '' @ pkgsForThisBumpType)) w
      in case askDescriptions chosenChangeTypeList [] w0 of
           Inl e \<Rightarrow> Inl e
         | Inr (changeTypeList, w1) \<Rightarrow>
             getReleasesPerBumpTypeLoop rest rels chosenChangeTypeList
               (releaseWithChangeTypeList
                  @ map (\<lambda>rel. rel\<lparr>changeTypes := Some changeTypeList\<rparr>)
                      (filter (\<lambda>rel. type rel = bumpType) rels)) w1)"

definition getReleasesPerBumpType ::
  "string list \<Rightarrow> Release list \<Rightarrow> ChangeTypeOption list \<Rightarrow> World \<Rightarrow> Release list result" where
  "getReleasesPerBumpType bumpTypeSet rels chosenChangeTypeList w =
     getReleasesPerBumpTypeLoop bumpTypeSet rels chosenChangeTypeList [] w"

text \<open>
  The answer cache \<^verbatim>\<open>previousAnswers\<close> is an object created as \<^verbatim>\<open>{}\<close> and used as a dictionary
  from category titles to descriptions. The map holds its own properties. Reading a key
  that is not an own property finds the members inherited from \<^verbatim>\<open>Object.prototype\<close>: a
  function, or for \<^verbatim>\<open>__proto__\<close> the prototype itself. The program only tests such a value
  and interpolates it into strings, so the model holds the text it is rendered to.
  Assigning to \<^verbatim>\<open>__proto__\<close> a string changes nothing; assigning to any other key makes an
  own property.
\<close>

definition objectPrototypeMembers :: "string list" where
  "objectPrototypeMembers =
     [''constructor'', ''__defineGetter__'', ''__defineSetter__'', ''hasOwnProperty'',
      ''__lookupGetter__'', ''__lookupSetter__'', ''isPrototypeOf'', ''propertyIsEnumerable'',
      ''toString'', ''valueOf'', ''__proto__'', ''toLocaleString'']"

definition inheritedMemberText :: "string \<Rightarrow> string" where
  "inheritedMemberText key =
     (if key = ''__proto__'' then ''[object Object]''
      else if key = ''constructor'' then ''function Object() { [native code] }''
      else ''function '' @ key @ ''() { [native code] }'')"

definition getProperty :: "(string \<rightharpoonup> string) \<Rightarrow> string \<Rightarrow> string option" where
  "getProperty obj key =
     (if key = ''__proto__'' then Some (inheritedMemberText key)
      else
        (case obj key of
           Some v \<Rightarrow> Some v
         | None \<Rightarrow>
             if key \<in> set objectPrototypeMembers then Some (inheritedMemberText key) else None))"

definition setProperty :: "(string \<rightharpoonup> string) \<Rightarrow> string \<Rightarrow> string \<Rightarrow> (string \<rightharpoonup> string)" where
  "setProperty obj key v = (if key = ''__proto__'' then obj else obj(key \<mapsto> v))"

text \<open>
  \<^verbatim>\<open>getDescriptionWithPreviousAnswer\<close>. The function mutates the cache, so the model returns
  it. A previous answer is offered again only when it is truthy: \<open>None\<close> is \<^verbatim>\<open>undefined\<close>,
  and the empty string is falsy too.
\<close>

definition getDescriptionWithPreviousAnswer ::
  "(string \<rightharpoonup> string) \<Rightarrow> ChangeTypeOption \<Rightarrow> World \<Rightarrow> (string \<times> (string \<rightharpoonup> string)) result" where
  "getDescriptionWithPreviousAnswer previousAnswers cat w =
     (let fresh = (\<lambda>w0.
            case askQuestion (''[ '' @ title cat @ '' ]'') w0 of
              Inl e \<Rightarrow> Inl e
            | Inr (descr, w1) \<Rightarrow>
                Inr ((descr, setProperty previousAnswers (title cat) descr), w1))
      in case getProperty previousAnswers (title cat) of
           None \<Rightarrow> fresh w
         | Some previousAnswer \<Rightarrow>
             if previousAnswer \<noteq> [] then
               (case askConfirm
                       (''Do you want to reuse your previous answer for the current package? (''
                          @ previousAnswer @ '')'') w of
                  Inl e \<Rightarrow> Inl e
                | Inr (shouldReusePreviousAnswer, w') \<Rightarrow>
                    if shouldReusePreviousAnswer then Inr ((previousAnswer, previousAnswers), w')
                    else fresh w')
             else fresh w)"

fun describeCategories ::
  "ChangeTypeOption list \<Rightarrow> (string \<rightharpoonup> string) \<Rightarrow> ChangeType list \<Rightarrow> World
     \<Rightarrow> (ChangeType list \<times> (string \<rightharpoonup> string)) result" where
  "describeCategories [] previousAnswers currChangeTypeList w =
     Inr ((currChangeTypeList, previousAnswers), w)"
| "describeCategories (cat # rest) previousAnswers currChangeTypeList w =
     (case getDescriptionWithPreviousAnswer previousAnswers cat w of
        Inl e \<Rightarrow> Inl e
      | Inr ((descr, previousAnswers'), w') \<Rightarrow>
          describeCategories rest previousAnswers'
            (currChangeTypeList @ [\<lparr>description = descr, category = cat\<rparr>]) w')"

fun getReleasesPerPackageLoop ::
  "Release list \<Rightarrow> ChangeTypeOption list \<Rightarrow> (string \<rightharpoonup> string) \<Rightarrow> Changeset list \<Rightarrow> World
     \<Rightarrow> Changeset list result" where
  "getReleasesPerPackageLoop [] chosenChangeTypeList previousAnswers changesetList w =
     Inr (changesetList, w)"
| "getReleasesPerPackageLoop (release # rest) chosenChangeTypeList previousAnswers changesetList w =
     (case describeCategories chosenChangeTypeList previousAnswers []
             (emit (Log (type release @ '' : '' @ Release.name release)) w) of
        Inl e \<Rightarrow> Inl e
      | Inr ((currChangeTypeList, previousAnswers'), w') \<Rightarrow>
          getReleasesPerPackageLoop rest chosenChangeTypeList previousAnswers'
            (changesetList
               @ [\<lparr>releases = [release\<lparr>changeTypes := Some currChangeTypeList\<rparr>],
                   summary = [], confirmed = False\<rparr>]) w')"

definition getReleasesPerPackage ::
  "Release list \<Rightarrow> ChangeTypeOption list \<Rightarrow> World \<Rightarrow> Changeset list result" where
  "getReleasesPerPackage rels chosenChangeTypeList w =
     getReleasesPerPackageLoop rels chosenChangeTypeList Map.empty [] w"

definition getChangesetList ::
  "Release list \<Rightarrow> ChangeTypeOption list \<Rightarrow> World \<Rightarrow> Changeset list result" where
  "getChangesetList rels chosenChangeTypeList w =
     (let bumpTypeSet = newSet (map type rels)
      in case askConfirm
                ''Would you like to reuse the same message for all packages of this bump type?'' w of
           Inl e \<Rightarrow> Inl e
         | Inr (isSameMessageForAllPkgs, w1) \<Rightarrow>
             if isSameMessageForAllPkgs then
               (case getReleasesPerBumpType bumpTypeSet rels chosenChangeTypeList w1 of
                  Inl e \<Rightarrow> Inl e
                | Inr (releaseWithChangeTypeList, w2) \<Rightarrow>
                    Inr ([\<lparr>releases = releaseWithChangeTypeList, summary = [],
                            confirmed = False\<rparr>], w2))
             else getReleasesPerPackage rels chosenChangeTypeList w1)"

fun setSummaryEach :: "Changeset list \<Rightarrow> Config \<Rightarrow> World \<Rightarrow> Changeset list result" where
  "setSummaryEach [] config w = Inr ([], w)"
| "setSummaryEach (changeset # rest) config w =
     (case setSummary changeset config w of
        Inl e \<Rightarrow> Inl e
      | Inr (changeset', w') \<Rightarrow>
          (case setSummaryEach rest config w' of
             Inl e \<Rightarrow> Inl e
           | Inr (rest', w'') \<Rightarrow> Inr (changeset' # rest', w'')))"

text \<open>
  The class \<^verbatim>\<open>ChangesetsWithChangeTypes\<close>: its private fields as a record, each method a
  function from the object (and the world) to the object after the call.
\<close>

record ChangesetsWithChangeTypes =
  config :: Config
  isWithChangeTypes :: bool
  releases :: "Release list"
  chosenChangeTypeList :: "ChangeTypeOption list"
  changesetList :: "Changeset list"

definition newChangesetsWithChangeTypes :: "Config \<Rightarrow> ChangesetsWithChangeTypes" where
  "newChangesetsWithChangeTypes cfg =
     \<lparr>config = cfg, isWithChangeTypes = False, releases = [], chosenChangeTypeList = [],
      changesetList = []\<rparr>"

definition setChangeTypeList ::
  "ChangeTypeOption list \<Rightarrow> ChangesetsWithChangeTypes \<Rightarrow> World \<Rightarrow> ChangesetsWithChangeTypes result" where
  "setChangeTypeList allChangeTypes this w =
     (if \<not> shouldAskForChangeTypes (config this) then Inr (this, w)
      else
        (case getChangeTypeList allChangeTypes w of
           Inl e \<Rightarrow> Inl e
         | Inr (choosenTitleList, w') \<Rightarrow>
             (case those (map (\<lambda>t. find (\<lambda>cht. title cht = t) allChangeTypes) choosenTitleList) of
                None \<Rightarrow> Inl TypeError
              | Some found \<Rightarrow>
                  Inr (this\<lparr>chosenChangeTypeList :=
                              map (\<lambda>p. \<lparr>title = fst p, text' = text' (snd p)\<rparr>)
                                (zip choosenTitleList found),
                            isWithChangeTypes := length choosenTitleList > 0\<rparr>, w'))))"

definition setReleases ::
  "Release list \<Rightarrow> ChangesetsWithChangeTypes \<Rightarrow> World \<Rightarrow> ChangesetsWithChangeTypes result" where
  "setReleases newReleases this w =
     (if \<not> isWithChangeTypes this then Inr (this, w)
      else Inr (this\<lparr>releases := newReleases\<rparr>, w))"

definition setChangesetList ::
  "ChangesetsWithChangeTypes \<Rightarrow> World \<Rightarrow> ChangesetsWithChangeTypes result" where
  "setChangesetList this w =
     (if \<not> isWithChangeTypes this then Inr (this, w)
      else if length (releases this) = 0 \<or> length (chosenChangeTypeList this) = 0
      then Inl (Error ''releases and chosenChangeTypeList must be set'')
      else
        (case getChangesetList (releases this) (chosenChangeTypeList this) w of
           Inl e \<Rightarrow> Inl e
         | Inr (l, w') \<Rightarrow> Inr (this\<lparr>changesetList := l\<rparr>, w')))"

definition setSummaries ::
  "ChangesetsWithChangeTypes \<Rightarrow> World \<Rightarrow> ChangesetsWithChangeTypes result" where
  "setSummaries this w =
     (if \<not> isWithChangeTypes this then Inr (this, w)
      else if length (changesetList this) = 0 then Inl (Error ''changesetList must be set'')
      else
        (case setSummaryEach (changesetList this) (config this) w of
           Inl e \<Rightarrow> Inl e
         | Inr (l, w') \<Rightarrow> Inr (this\<lparr>changesetList := l\<rparr>, w')))"

text \<open>\<^verbatim>\<open>getFinalChangesetList\<close>; \<open>None\<close> is the \<^verbatim>\<open>undefined\<close> of the bare \<^verbatim>\<open>return\<close>.\<close>

definition getFinalChangesetList ::
  "ChangesetsWithChangeTypes \<Rightarrow> World \<Rightarrow> Changeset list option result" where
  "getFinalChangesetList this w =
     (if \<not> isWithChangeTypes this then Inr (None, w)
      else if length (changesetList this) = 0 then Inl (Error ''changesetList must be set'')
      else Inr (Some (changesetList this), w))"

section \<open>The changeset writer\<close>

text \<open>
  The arguments of \<^verbatim>\<open>writeChangesetList\<close>. Of \<^verbatim>\<open>packages\<close> only \<^verbatim>\<open>packages.length > 1\<close> is
  used (\<open>multiplePackages\<close>); \<open>getAddMessage\<close> is what \<^verbatim>\<open>getCommitFunctions(config.commit, cwd)\<close>
  yields (\<open>None\<close> when it yields no such function), since that module is not among the
  sources; \<open>writeChangeset\<close> returns the identifier. \<^verbatim>\<open>path.resolve\<close> is modelled as joining
  with a slash. \<^verbatim>\<open>warnIfMajor\<close> and \<^verbatim>\<open>determineEditorHack\<close> are imported from the command's
  index module; they are modelled after the statements they replace in the older copy of
  this file (the four warnings or the one notice; the detached editor launch).
\<close>

record WriteChangesetListArgs =
  multiplePackages :: bool
  cwd :: string
  changesetBase :: string
  empty :: bool
  getAddMessage :: "(Changeset \<Rightarrow> string) option"
  openFlag :: bool
  writeChangeset :: "Changeset \<Rightarrow> string \<Rightarrow> string"

definition pathResolve :: "string \<Rightarrow> string \<Rightarrow> string" where
  "pathResolve base file = base @ ''/'' @ file"

definition warnIfMajor :: "Changeset \<Rightarrow> World \<Rightarrow> World" where
  "warnIfMajor changeset w =
     (if list_ex (\<lambda>c. type c = ''major'') (Changeset.releases changeset) then
        emit (LogWarn ''HOW a consumer should update their code'')
          (emit (LogWarn ''WHY the change was made'')
             (emit (LogWarn ''WHAT the breaking change is'')
                (emit (LogWarn (''This Changeset includes a major change and we STRONGLY recommend ''
                                  @ ''adding more information to the changeset:'')) w)))
      else
        emit (Log (''If you want to modify or expand on the changeset summary, ''
                     @ ''you can find it here'')) w)"

definition persist :: "WriteChangesetListArgs \<Rightarrow> Changeset \<Rightarrow> World \<Rightarrow> World" where
  "persist args changeset w =
     (let changesetID = writeChangeset args changeset (cwd args);
          w1 = emit (WriteChangeset changeset (cwd args)) w;
          changesetPath = pathResolve (changesetBase args) (changesetID @ ''.md'');
          w2 = (case getAddMessage args of
                  Some gen \<Rightarrow>
                    emit (Log ((if empty args then ''Empty '' else []) @ ''Changeset added and committed''))
                      (emit (GitCommit (gen changeset) (cwd args))
                         (emit (GitAdd changesetPath (cwd args)) w1))
                | None \<Rightarrow>
                    emit (Log ((if empty args then ''Empty '' else [])
                                 @ ''Changeset added! - you can now commit it'' @ nl)) w1);
          w3 = emit (LogInfo changesetPath) (warnIfMajor changeset w2)
      in if openFlag args then emit (SpawnEditor changesetPath) w3 else w3)"

fun writeChangesetList :: "WriteChangesetListArgs \<Rightarrow> Changeset list \<Rightarrow> World \<Rightarrow> unit result" where
  "writeChangesetList args [] w = Inr ((), w)"
| "writeChangesetList args (changeset # rest) w =
     (case (if \<not> confirmed changeset then
              (case askConfirm ''Is this your desired changeset?''
                      (emit (PrintConfirmationMessage changeset (multiplePackages args)) w) of
                 Inl e \<Rightarrow> Inl e
               | Inr (answer, w1) \<Rightarrow> Inr (changeset\<lparr>confirmed := answer\<rparr>, w1))
            else Inr (changeset, emit (PrintConfirmationMessage changeset (multiplePackages args)) w)) of
        Inl e \<Rightarrow> Inl e
      | Inr (changeset', w1) \<Rightarrow>
          if \<not> confirmed changeset' then writeChangesetList args rest w1
          else writeChangesetList args rest (persist args changeset' w1))"

section \<open>Notions used in the statements\<close>

text \<open>A session that starts with the given answers pending and nothing done yet.\<close>

definition session ::
  "string list list \<Rightarrow> bool list \<Rightarrow> string list \<Rightarrow> string list \<Rightarrow> string option list \<Rightarrow> World" where
  "session cbs cfs ls qs es =
     \<lparr>checkboxAnswers = cbs, confirmAnswers = cfs, listAnswers = ls, questionAnswers = qs,
      editorAnswers = es, trace = []\<rparr>"

text \<open>
  What one rejected (empty) initial selection adds to the trace: the two error lines
  and the question asked again.
\<close>

definition rejection :: "(string \<times> string list) list \<Rightarrow> event list" where
  "rejection groups =
     [LogError ''You must select at least one package to release'',
      LogError ''(You most likely hit enter instead of space!)'',
      AskCheckboxPlus ''Which packages would you like to include?'' groups]"

text \<open>
  The changesets handed to the store, the version-control operations and the
  confirmation questions in a trace.
\<close>

definition storeWrites :: "event list \<Rightarrow> Changeset list" where
  "storeWrites evs =
     concat (map (\<lambda>e. case e of WriteChangeset c d \<Rightarrow> [c] | _ \<Rightarrow> []) evs)"

definition isVcsOp :: "event \<Rightarrow> bool" where
  "isVcsOp e = (case e of GitAdd f d \<Rightarrow> True | GitCommit m d \<Rightarrow> True | _ \<Rightarrow> False)"

definition isConfirmation :: "event \<Rightarrow> bool" where
  "isConfirmation e = (case e of AskConfirm q \<Rightarrow> True | _ \<Rightarrow> False)"

text \<open>
  The writer as the specification words it: going through the candidates in order, a
  changeset already confirmed is persisted; otherwise the next answer decides, and on a
  decline the changeset is skipped. With no answer left the writer is still waiting.
\<close>

fun accepted :: "Changeset list \<Rightarrow> bool list \<Rightarrow> Changeset list" where
  "accepted [] answers = []"
| "accepted (c # cs) answers =
     (if confirmed c then c # accepted cs answers
      else (case answers of
              [] \<Rightarrow> []
            | b # bs \<Rightarrow> (if b then [c\<lparr>confirmed := True\<rparr>] else []) @ accepted cs bs))"

text \<open>The version-control operations that follow the persisting of one changeset.\<close>

definition vcsOpsFor :: "WriteChangesetListArgs \<Rightarrow> Changeset \<Rightarrow> event list" where
  "vcsOpsFor args c =
     (case getAddMessage args of
        None \<Rightarrow> []
      | Some gen \<Rightarrow>
          [GitAdd (pathResolve (changesetBase args) (writeChangeset args c (cwd args) @ ''.md''))
             (cwd args),
           GitCommit (gen c) (cwd args)])"


text \<open>
  The first-major-release confirmation as the specification words it, for the packages
  chosen at major severity, in order: a package whose version is not below 1.0.0 is
  accepted without a question; for any other the next answer decides. \<open>majorAccepted\<close>
  lists the packages that stay at major, \<open>majorDeclined\<close> those whose confirmation was
  declined.
\<close>

fun majorAccepted ::
  "(string \<Rightarrow> string \<Rightarrow> bool option) \<Rightarrow> (string \<rightharpoonup> PackageJSON) \<Rightarrow> string list \<Rightarrow> bool list
     \<Rightarrow> string list" where
  "majorAccepted semver_lt pkgJsonsByName [] answers = []"
| "majorAccepted semver_lt pkgJsonsByName (p # ps) answers =
     (case pkgJsonsByName p of
        None \<Rightarrow> []
      | Some pkgJson \<Rightarrow>
          (case semver_lt (version pkgJson) ''1.0.0'' of
             None \<Rightarrow> []
           | Some below \<Rightarrow>
               if \<not> below then p # majorAccepted semver_lt pkgJsonsByName ps answers
               else
                 (case answers of
                    [] \<Rightarrow> []
                  | b # bs \<Rightarrow>
                      (if b then [p] else []) @ majorAccepted semver_lt pkgJsonsByName ps bs)))"

fun majorDeclined ::
  "(string \<Rightarrow> string \<Rightarrow> bool option) \<Rightarrow> (string \<rightharpoonup> PackageJSON) \<Rightarrow> string list \<Rightarrow> bool list
     \<Rightarrow> string list" where
  "majorDeclined semver_lt pkgJsonsByName [] answers = []"
| "majorDeclined semver_lt pkgJsonsByName (p # ps) answers =
     (case pkgJsonsByName p of
        None \<Rightarrow> []
      | Some pkgJson \<Rightarrow>
          (case semver_lt (version pkgJson) ''1.0.0'' of
             None \<Rightarrow> []
           | Some below \<Rightarrow>
               if \<not> below then majorDeclined semver_lt pkgJsonsByName ps answers
               else
                 (case answers of
                    [] \<Rightarrow> []
                  | b # bs \<Rightarrow>
                      (if b then [] else [p]) @ majorDeclined semver_lt pkgJsonsByName ps bs)))"

text \<open>
  The packages, among those chosen at major severity, whose major release would be the
  first: each of them takes one answer of the confirmation.
\<close>

definition firstMajors ::
  "(string \<Rightarrow> string \<Rightarrow> bool option) \<Rightarrow> (string \<rightharpoonup> PackageJSON) \<Rightarrow> string list \<Rightarrow> string list" where
  "firstMajors semver_lt pkgJsonsByName ps =
     filter (\<lambda>p. case pkgJsonsByName p of
                    None \<Rightarrow> False
                  | Some pkgJson \<Rightarrow> semver_lt (version pkgJson) ''1.0.0'' = Some True) ps"

text \<open>The release pushed for a package at a bump type.\<close>

definition release :: "string \<Rightarrow> string \<Rightarrow> Release" where
  "release pkgName bump = \<lparr>name = pkgName, type = bump, changeTypes = None\<rparr>"

text \<open>
  The per-package collection as the specification words it. For each package and each
  chosen category the user takes a decision: to reuse the description this category got
  for the previous package, or to enter a fresh one. \<open>prev\<close> lists, category by category,
  the descriptions of the previous package (the empty text before the first package).
  Reusing is possible only where the previous description is not empty: only there is
  the offer made, and it takes one answer of the confirmation; a fresh description takes
  one answer of the question.
\<close>

datatype decision = Reuse | Fresh string

definition describe :: "string \<Rightarrow> decision \<Rightarrow> string" where
  "describe prev dec = (case dec of Reuse \<Rightarrow> prev | Fresh d \<Rightarrow> d)"

definition allowed :: "string \<Rightarrow> decision \<Rightarrow> bool" where
  "allowed prev dec = (case dec of Reuse \<Rightarrow> prev \<noteq> [] | Fresh d \<Rightarrow> True)"

definition confirmsFor :: "string \<Rightarrow> decision \<Rightarrow> bool list" where
  "confirmsFor prev dec = (if prev = [] then [] else [dec = Reuse])"

definition questionsFor :: "decision \<Rightarrow> string list" where
  "questionsFor dec = (case dec of Reuse \<Rightarrow> [] | Fresh d \<Rightarrow> [d])"

definition eventsFor :: "ChangeTypeOption \<Rightarrow> string \<Rightarrow> decision \<Rightarrow> event list" where
  "eventsFor cat prev dec =
     (if prev = [] then []
      else [AskConfirm (''Do you want to reuse your previous answer for the current package? (''
                          @ prev @ '')'')])
     @ (case dec of Reuse \<Rightarrow> [] | Fresh d \<Rightarrow> [AskQuestion (''[ '' @ title cat @ '' ]'')])"

text \<open>One package: the decisions for the chosen categories, in order.\<close>

definition roundDescriptions :: "string list \<Rightarrow> decision list \<Rightarrow> string list" where
  "roundDescriptions prev decs = map (\<lambda>(p, dec). describe p dec) (zip prev decs)"

definition roundAllowed :: "string list \<Rightarrow> decision list \<Rightarrow> bool" where
  "roundAllowed prev decs = list_all2 allowed prev decs"

definition roundConfirms :: "string list \<Rightarrow> decision list \<Rightarrow> bool list" where
  "roundConfirms prev decs = concat (map (\<lambda>(p, dec). confirmsFor p dec) (zip prev decs))"

definition roundQuestions :: "decision list \<Rightarrow> string list" where
  "roundQuestions decs = concat (map questionsFor decs)"

definition roundEvents :: "ChangeTypeOption list \<Rightarrow> string list \<Rightarrow> decision list \<Rightarrow> event list" where
  "roundEvents cats prev decs =
     concat (map (\<lambda>(cat, p, dec). eventsFor cat p dec) (zip cats (zip prev decs)))"

text \<open>All packages: one list of decisions for each, the descriptions of one package being
  the previous ones of the next.\<close>

fun scriptDescriptions :: "string list \<Rightarrow> decision list list \<Rightarrow> string list list" where
  "scriptDescriptions prev [] = []"
| "scriptDescriptions prev (decs # script) =
     roundDescriptions prev decs # scriptDescriptions (roundDescriptions prev decs) script"

fun scriptAllowed :: "string list \<Rightarrow> decision list list \<Rightarrow> bool" where
  "scriptAllowed prev [] = True"
| "scriptAllowed prev (decs # script) =
     (roundAllowed prev decs \<and> scriptAllowed (roundDescriptions prev decs) script)"

fun scriptConfirms :: "string list \<Rightarrow> decision list list \<Rightarrow> bool list" where
  "scriptConfirms prev [] = []"
| "scriptConfirms prev (decs # script) =
     roundConfirms prev decs @ scriptConfirms (roundDescriptions prev decs) script"

definition scriptQuestions :: "decision list list \<Rightarrow> string list" where
  "scriptQuestions script = concat (map roundQuestions script)"

fun scriptEvents ::
  "ChangeTypeOption list \<Rightarrow> string list \<Rightarrow> Release list \<Rightarrow> decision list list \<Rightarrow> event list" where
  "scriptEvents cats prev (rel # rels) (decs # script) =
     Log (type rel @ '' : '' @ Release.name rel) # roundEvents cats prev decs
       @ scriptEvents cats (roundDescriptions prev decs) rels script"
| "scriptEvents cats prev rels script = []"

text \<open>
  The cache agrees with a previous description of a category: it holds the description
  under the title of the category, or it holds nothing there and the description is empty.
\<close>

definition recorded :: "(string \<rightharpoonup> string) \<Rightarrow> ChangeTypeOption \<Rightarrow> string \<Rightarrow> bool" where
  "recorded pa cat p = (pa (title cat) = Some p \<or> (p = [] \<and> pa (title cat) = None))"

text \<open>The changeset of one package with its descriptions, one for each chosen category.\<close>

definition withChangeTypes :: "ChangeTypeOption list \<Rightarrow> Release \<Rightarrow> string list \<Rightarrow> Changeset" where
  "withChangeTypes cats rel ds =
     \<lparr>Changeset.releases =
        [rel\<lparr>changeTypes := Some (map (\<lambda>(d, cat). \<lparr>description = d, category = cat\<rparr>) (zip ds cats))\<rparr>],
      summary = [], confirmed = False\<rparr>"

section \<open>The bump classifier\<close>

lemma groupByBumpType_foldl:
  "foldl pushRelease g rels =
     \<lparr>major = major g @ filter (\<lambda>r. type r \<noteq> ''minor'' \<and> type r \<noteq> ''patch'') rels,
      minor = minor g @ filter (\<lambda>r. type r = ''minor'') rels,
      patch = patch g @ filter (\<lambda>r. type r = ''patch'') rels,
      none = none g\<rparr>"
  by (induction rels arbitrary: g) (auto simp: pushRelease_def)

text \<open>
  What the classifier computes: each bucket is a \<open>filter\<close> of the input, so it keeps the
  input order; the three predicates exclude each other and cover every release, so the
  buckets partition the input. The \<open>none\<close> bucket is always empty.
\<close>

lemma groupByBumpType_buckets:
  "groupByBumpType rels =
     \<lparr>major = filter (\<lambda>r. type r \<noteq> ''minor'' \<and> type r \<noteq> ''patch'') rels,
      minor = filter (\<lambda>r. type r = ''minor'') rels,
      patch = filter (\<lambda>r. type r = ''patch'') rels,
      none = []\<rparr>"
  by (simp add: groupByBumpType_def groupByBumpType_foldl)

lemma groupByBumpType_length:
  "length (major (groupByBumpType rels)) + length (minor (groupByBumpType rels))
     + length (patch (groupByBumpType rels)) + length (none (groupByBumpType rels)) = length rels"
  by (induction rels) (auto simp: groupByBumpType_buckets)

text \<open>
  C1. The claim places every release of type "none" in the none bucket. The code has no
  branch that pushes to \<open>none\<close>: on the releases pkg-a (none) and pkg-b (patch) the release
  of type "none" is returned in the major bucket and the none bucket is empty.
\<close>

theorem groupByBumpType_none_release_in_major:
  "groupByBumpType
     [\<lparr>name = ''pkg-a'', type = ''none'', changeTypes = None\<rparr>,
      \<lparr>name = ''pkg-b'', type = ''patch'', changeTypes = None\<rparr>] =
   \<lparr>major = [\<lparr>name = ''pkg-a'', type = ''none'', changeTypes = None\<rparr>],
    minor = [],
    patch = [\<lparr>name = ''pkg-b'', type = ''patch'', changeTypes = None\<rparr>],
    none = []\<rparr>"
  by (simp add: groupByBumpType_def pushRelease_def)

section \<open>Rendering with and without splitting\<close>

lemma filter_single_type:
  "\<forall>r\<in>set rels. type r = bt \<Longrightarrow> filter (\<lambda>r. P (type r)) rels = (if P bt then rels else [])"
  by (induction rels) auto

lemma grouped_single_type:
  assumes "\<forall>r\<in>set rels. type r = bt" and "rels \<noteq> []"
  shows "filter (\<lambda>e. snd e \<noteq> []) (entries (groupByBumpType rels)) =
           [(if bt = ''minor'' then ''minor'' else if bt = ''patch'' then ''patch'' else ''major'', rels)]"
proof -
  have a: "filter (\<lambda>r. type r \<noteq> ''minor'' \<and> type r \<noteq> ''patch'') rels =
             (if bt \<noteq> ''minor'' \<and> bt \<noteq> ''patch'' then rels else [])"
    using filter_single_type [OF assms(1), of "\<lambda>t. t \<noteq> ''minor'' \<and> t \<noteq> ''patch''"] by simp
  have b: "filter (\<lambda>r. type r = ''minor'') rels = (if bt = ''minor'' then rels else [])"
    using filter_single_type [OF assms(1), of "\<lambda>t. t = ''minor''"] by simp
  have c: "filter (\<lambda>r. type r = ''patch'') rels = (if bt = ''patch'' then rels else [])"
    using filter_single_type [OF assms(1), of "\<lambda>t. t = ''patch''"] by simp
  show ?thesis
    using assms(2) by (simp add: groupByBumpType_buckets entries_def a b c)
qed

lemma select_single_type:
  assumes "\<forall>r\<in>set rels. type r = bt" and "rels \<noteq> []"
  shows "selectChangeTypes rels (Some k) =
           (if k = [] then concat (map changeTypesOrEmpty rels)
            else if k = bt then changeTypesOrEmpty (hd rels) else [])"
proof -
  have "filter (\<lambda>r. Some (type r) = Some k) rels = (if bt = k then rels else [])"
    using filter_single_type [OF assms(1), of "\<lambda>t. Some t = Some k"] by simp
  then show ?thesis
    using assms(2) by (cases rels) (auto simp: selectChangeTypes_def)
qed

text \<open>
  C2, as claimed, fails: for one patch release with one change type the two renderings
  differ right after the releases section (a newline and two spaces with splitting, a
  space, a newline and four spaces without).
\<close>

theorem getChangesetContent_split_differs:
  "getChangesetContent
     [\<lparr>name = ''pkg-a'', type = ''patch'', changeTypes =
         Some [\<lparr>description = ''new flag'', category = \<lparr>title = ''Added'', text' = ''New functionality''\<rparr>\<rparr>]\<rparr>]
     ''fix bug'' False
   \<noteq>
   getChangesetContent
     [\<lparr>name = ''pkg-a'', type = ''patch'', changeTypes =
         Some [\<lparr>description = ''new flag'', category = \<lparr>title = ''Added'', text' = ''New functionality''\<rparr>\<rparr>]\<rparr>]
     ''fix bug'' True"
  by (simp add: getChangesetContent_def groupByBumpType_def pushRelease_def entries_def
      groupSection_def getReleasesSection_def nl_def)

text \<open>
  C2, amended. For releases that all share one bump type, one of them carrying change
  types, both renderings are defined and have the same releases section and the same
  summary trailer around a separator and a bullet block. Without splitting the
  separator is a space, a newline and four spaces and the bullets are those of all
  releases. With splitting, when the shared type is major, minor or patch, the separator
  is a newline and two spaces and the bullets are those of the first release only. The
  two strings are never equal.
\<close>

theorem getChangesetContent_single_bump_type:
  assumes "\<forall>r\<in>set rels. type r = bt" and "list_ex (\<lambda>rel. changeTypes rel \<noteq> None) rels"
  shows "getChangesetContent rels summ False =
           Some (getReleasesSection rels @ '' '' @ nl @ ''    '' @
                 bullets (concat (map changeTypesOrEmpty rels)) @ summaryTrailer summ)
       \<and> (bt = ''major'' \<or> bt = ''minor'' \<or> bt = ''patch'' \<longrightarrow>
            getChangesetContent rels summ True =
              Some (getReleasesSection rels @ nl @ ''  '' @
                    bullets (changeTypesOrEmpty (hd rels)) @ summaryTrailer summ))
       \<and> getChangesetContent rels summ False \<noteq> getChangesetContent rels summ True"
proof -
  from assms(2) have ne: "rels \<noteq> []" by auto
  have s: "getChangesetContent rels summ True =
           Some (getReleasesSection rels @ nl @ ''  '' @
                 bullets (if bt = ''major'' \<or> bt = ''minor'' \<or> bt = ''patch''
                          then changeTypesOrEmpty (hd rels) else [])
                 @ summaryTrailer summ)"
    using assms(2)
    by (simp add: getChangesetContent_def grouped_single_type [OF assms(1) ne] groupSection_def
        getChangeTypesSection_def select_single_type [OF assms(1) ne])
  have u: "getChangesetContent rels summ False =
           Some (getReleasesSection rels @ '' '' @ nl @ ''    '' @
                 bullets (concat (map changeTypesOrEmpty rels)) @ summaryTrailer summ)"
    using assms(2)
    by (simp add: getChangesetContent_def getChangeTypesSection_def selectChangeTypes_def)
  have d: "getChangesetContent rels summ False \<noteq> getChangesetContent rels summ True"
    unfolding s u by (simp add: nl_def)
  have "bt = ''major'' \<or> bt = ''minor'' \<or> bt = ''patch'' \<longrightarrow>
            getChangesetContent rels summ True =
              Some (getReleasesSection rels @ nl @ ''  '' @
                    bullets (changeTypesOrEmpty (hd rels)) @ summaryTrailer summ)"
    using s by simp
  with u d show ?thesis by blast
qed

theorem getChangesetContent_single_bump_type_witness:
  "list_all (\<lambda>r. type r = ''minor'')
       [\<lparr>name = ''pkg-a'', type = ''minor'', changeTypes =
           Some [\<lparr>description = ''new flag'', category = \<lparr>title = ''Added'', text' = ''New''\<rparr>\<rparr>]\<rparr>,
        \<lparr>name = ''pkg-b'', type = ''minor'', changeTypes = None\<rparr>]
   \<and> getChangesetContent
       [\<lparr>name = ''pkg-a'', type = ''minor'', changeTypes =
           Some [\<lparr>description = ''new flag'', category = \<lparr>title = ''Added'', text' = ''New''\<rparr>\<rparr>]\<rparr>,
        \<lparr>name = ''pkg-b'', type = ''minor'', changeTypes = None\<rparr>] ''s'' False
     \<noteq> getChangesetContent
       [\<lparr>name = ''pkg-a'', type = ''minor'', changeTypes =
           Some [\<lparr>description = ''new flag'', category = \<lparr>title = ''Added'', text' = ''New''\<rparr>\<rparr>]\<rparr>,
        \<lparr>name = ''pkg-b'', type = ''minor'', changeTypes = None\<rparr>] ''s'' True"
  (is "?same \<and> ?differ")
proof -
  have h0: ?same by simp
  have h1: "\<forall>r\<in>set [\<lparr>name = ''pkg-a'', type = ''minor'', changeTypes =
           Some [\<lparr>description = ''new flag'', category = \<lparr>title = ''Added'', text' = ''New''\<rparr>\<rparr>]\<rparr>,
        \<lparr>name = ''pkg-b'', type = ''minor'', changeTypes = None\<rparr>]. type r = ''minor''" by simp
  have h2: "list_ex (\<lambda>rel. changeTypes rel \<noteq> None)
       [\<lparr>name = ''pkg-a'', type = ''minor'', changeTypes =
           Some [\<lparr>description = ''new flag'', category = \<lparr>title = ''Added'', text' = ''New''\<rparr>\<rparr>]\<rparr>,
        \<lparr>name = ''pkg-b'', type = ''minor'', changeTypes = None\<rparr>]" by simp
  from getChangesetContent_single_bump_type [OF h1 h2, of "''s''"] have ?differ by blast
  with h0 show ?thesis by blast
qed

section \<open>The initial package selection\<close>

lemma retry_step_empty:
  assumes "checkboxAnswers w = [] # as"
  shows "retryInitialReleaseQuestion groups w =
           retryInitialReleaseQuestion groups
             (w\<lparr>checkboxAnswers := as, trace := trace w @ rejection groups\<rparr>)"
  by (subst retryInitialReleaseQuestion.simps)
     (simp add: assms askInitialReleaseQuestion_def askCheckboxPlus_def emit_def rejection_def)

lemma retry_step_selected:
  assumes "checkboxAnswers w = sel # as" and "sel \<noteq> []"
  shows "retryInitialReleaseQuestion groups w =
           Inr (sel, w\<lparr>checkboxAnswers := as, trace := trace w @ rejection groups\<rparr>)"
  by (subst retryInitialReleaseQuestion.simps)
     (simp add: assms askInitialReleaseQuestion_def askCheckboxPlus_def emit_def rejection_def)

lemma retry_step_none:
  assumes "checkboxAnswers w = []"
  shows "retryInitialReleaseQuestion groups w = Inl AwaitingInput"
  by (subst retryInitialReleaseQuestion.simps)
     (simp add: assms askInitialReleaseQuestion_def askCheckboxPlus_def emit_def)

lemma retry_selected:
  "checkboxAnswers w = replicate n [] @ sel # rest \<Longrightarrow> sel \<noteq> [] \<Longrightarrow>
   retryInitialReleaseQuestion groups w =
     Inr (sel, w\<lparr>checkboxAnswers := rest,
                 trace := trace w @ concat (replicate (Suc n) (rejection groups))\<rparr>)"
proof (induction n arbitrary: w)
  case 0
  then show ?case by (simp add: retry_step_selected)
next
  case (Suc n)
  from Suc.prems have a: "checkboxAnswers w = [] # (replicate n [] @ sel # rest)" by simp
  let ?w = "w\<lparr>checkboxAnswers := replicate n [] @ sel # rest, trace := trace w @ rejection groups\<rparr>"
  have "retryInitialReleaseQuestion groups w = retryInitialReleaseQuestion groups ?w"
    by (rule retry_step_empty [OF a])
  also have "\<dots> = Inr (sel, ?w\<lparr>checkboxAnswers := rest,
                 trace := trace ?w @ concat (replicate (Suc n) (rejection groups))\<rparr>)"
    by (rule Suc.IH) (simp_all add: Suc.prems)
  finally show ?case by simp
qed

lemma retry_waiting:
  "checkboxAnswers w = replicate n [] \<Longrightarrow> retryInitialReleaseQuestion groups w = Inl AwaitingInput"
proof (induction n arbitrary: w)
  case 0
  then show ?case by (simp add: retry_step_none)
next
  case (Suc n)
  from Suc.prems have a: "checkboxAnswers w = [] # replicate n []" by simp
  show ?case
    unfolding retry_step_empty [OF a] by (rule Suc.IH) simp
qed

text \<open>
  What the loop does in multi-package mode: when the pending answers are \<open>n\<close> empty
  selections followed by a non-empty one, the function returns that selection without the
  two group labels, after asking once and then, for each empty selection, logging the two
  error lines and asking again. When all pending answers are empty selections it does not
  return: the prompt is still waiting.
\<close>

lemma getPackagesToRelease_reprompts:
  assumes "length allPackages > 1"
  shows "(checkboxAnswers w = replicate n [] @ sel # rest \<and> sel \<noteq> [] \<longrightarrow>
            getPackagesToRelease changedPackages allPackages w =
              Inr (filter (\<lambda>pkgName. pkgName \<noteq> ''changed packages''
                              \<and> pkgName \<noteq> ''unchanged packages'') sel,
                   w\<lparr>checkboxAnswers := rest,
                     trace := trace w
                       @ AskCheckboxPlus ''Which packages would you like to include?''
                           (defaultChoiceList changedPackages allPackages)
                       # concat (replicate n (rejection (defaultChoiceList changedPackages allPackages)))\<rparr>)
            \<and> (list_ex (\<lambda>pkgName. pkgName \<noteq> ''changed packages''
                              \<and> pkgName \<noteq> ''unchanged packages'') sel \<longrightarrow>
                filter (\<lambda>pkgName. pkgName \<noteq> ''changed packages''
                              \<and> pkgName \<noteq> ''unchanged packages'') sel \<noteq> []))
       \<and> (checkboxAnswers w = replicate n [] \<longrightarrow>
            getPackagesToRelease changedPackages allPackages w = Inl AwaitingInput)"
proof (intro conjI impI)
  assume a: "checkboxAnswers w = replicate n [] @ sel # rest \<and> sel \<noteq> []"
  show "getPackagesToRelease changedPackages allPackages w =
              Inr (filter (\<lambda>pkgName. pkgName \<noteq> ''changed packages''
                              \<and> pkgName \<noteq> ''unchanged packages'') sel,
                   w\<lparr>checkboxAnswers := rest,
                     trace := trace w
                       @ AskCheckboxPlus ''Which packages would you like to include?''
                           (defaultChoiceList changedPackages allPackages)
                       # concat (replicate n (rejection (defaultChoiceList changedPackages allPackages)))\<rparr>)"
  proof (cases n)
    case 0
    with a assms show ?thesis
      by (simp add: getPackagesToRelease_def askInitialReleaseQuestion_def askCheckboxPlus_def emit_def)
  next
    case (Suc m)
    let ?w1 = "w\<lparr>checkboxAnswers := replicate m [] @ sel # rest,
                 trace := trace w @ [AskCheckboxPlus ''Which packages would you like to include?''
                 (defaultChoiceList changedPackages allPackages)]\<rparr>"
    have ask: "askInitialReleaseQuestion (defaultChoiceList changedPackages allPackages) w = Inr ([], ?w1)"
      using a Suc by (simp add: askInitialReleaseQuestion_def askCheckboxPlus_def emit_def)
    have "checkboxAnswers ?w1 = replicate m [] @ sel # rest" by simp
    from retry_selected [OF this, of "defaultChoiceList changedPackages allPackages"] a
    have r: "retryInitialReleaseQuestion (defaultChoiceList changedPackages allPackages) ?w1 =
       Inr (sel, ?w1\<lparr>checkboxAnswers := rest,
                 trace := trace ?w1 @ concat (replicate (Suc m)
                    (rejection (defaultChoiceList changedPackages allPackages)))\<rparr>)"
      by simp
    show ?thesis
      using assms Suc by (simp add: getPackagesToRelease_def ask r)
  qed
next
  assume "list_ex (\<lambda>pkgName. pkgName \<noteq> ''changed packages''
                              \<and> pkgName \<noteq> ''unchanged packages'') sel"
  then show "filter (\<lambda>pkgName. pkgName \<noteq> ''changed packages''
                              \<and> pkgName \<noteq> ''unchanged packages'') sel \<noteq> []"
    by (simp add: list_ex_iff filter_empty_conv)
next
  assume a: "checkboxAnswers w = replicate n []"
  show "getPackagesToRelease changedPackages allPackages w = Inl AwaitingInput"
  proof (cases n)
    case 0
    with a assms show ?thesis
      by (simp add: getPackagesToRelease_def askInitialReleaseQuestion_def askCheckboxPlus_def)
  next
    case (Suc m)
    let ?w1 = "w\<lparr>checkboxAnswers := replicate m [],
                 trace := trace w @ [AskCheckboxPlus ''Which packages would you like to include?''
                 (defaultChoiceList changedPackages allPackages)]\<rparr>"
    have ask: "askInitialReleaseQuestion (defaultChoiceList changedPackages allPackages) w = Inr ([], ?w1)"
      using a Suc by (simp add: askInitialReleaseQuestion_def askCheckboxPlus_def emit_def)
    have "checkboxAnswers ?w1 = replicate m []" by simp
    from retry_waiting [OF this]
    show ?thesis
      using assms by (simp add: getPackagesToRelease_def ask)
  qed
qed

lemma getPackagesToRelease_reprompts_example:
  "getPackagesToRelease [''pkg-a'']
     [\<lparr>packageJson = \<lparr>PackageJSON.name = ''pkg-a'', version = ''1.0.0''\<rparr>, dir = ''a''\<rparr>,
      \<lparr>packageJson = \<lparr>PackageJSON.name = ''pkg-b'', version = ''1.0.0''\<rparr>, dir = ''b''\<rparr>]
     (session [[], [], [''changed packages'', ''pkg-a'']] [] [] [] []) =
   Inr ([''pkg-a''],
        \<lparr>checkboxAnswers = [], confirmAnswers = [], listAnswers = [], questionAnswers = [],
          editorAnswers = [],
          trace =
            AskCheckboxPlus ''Which packages would you like to include?''
              [(''changed packages'', [''pkg-a'']), (''unchanged packages'', [''pkg-b''])]
            # rejection [(''changed packages'', [''pkg-a'']), (''unchanged packages'', [''pkg-b''])]
            @ rejection [(''changed packages'', [''pkg-a'']), (''unchanged packages'', [''pkg-b''])]\<rparr>)"
  using getPackagesToRelease_reprompts
    [of "[\<lparr>packageJson = \<lparr>PackageJSON.name = ''pkg-a'', version = ''1.0.0''\<rparr>, dir = ''a''\<rparr>,
          \<lparr>packageJson = \<lparr>PackageJSON.name = ''pkg-b'', version = ''1.0.0''\<rparr>, dir = ''b''\<rparr>]"
        "session [[], [], [''changed packages'', ''pkg-a'']] [] [] [] []"
        2 "[''changed packages'', ''pkg-a'']" "[]" "[''pkg-a'']"]
  by (simp add: session_def defaultChoiceList_def numeral_2_eq_2)

lemma selections_cases:
  obtains (selected) n sel rest where "xs = replicate n [] @ sel # rest" and "sel \<noteq> []"
  | (waiting) n where "xs = replicate n ([] :: 'a list)"
proof (cases "dropWhile (\<lambda>x. x = []) xs")
  case Nil
  then have "\<forall>x\<in>set xs. x = []" by (simp add: dropWhile_eq_Nil_conv)
  then have "xs = replicate (length xs) []" by (simp add: replicate_length_same)
  then show ?thesis by (rule waiting)
next
  case (Cons sel rest)
  have "\<forall>x\<in>set (takeWhile (\<lambda>x. x = []) xs). x = []" by (auto dest: set_takeWhileD)
  then have t: "takeWhile (\<lambda>x. x = []) xs = replicate (length (takeWhile (\<lambda>x. x = []) xs)) []"
    by (simp add: replicate_length_same)
  have "xs = takeWhile (\<lambda>x. x = []) xs @ dropWhile (\<lambda>x. x = []) xs" by simp
  with t Cons have "xs = replicate (length (takeWhile (\<lambda>x. x = []) xs)) [] @ sel # rest" by simp
  moreover from Cons have "sel \<noteq> []" using hd_dropWhile [of "\<lambda>x. x = []" xs] by auto
  ultimately show ?thesis by (rule selected)
qed

text \<open>
  The requirement holds of the code for a prompt that never answers with group labels
  alone: if every non-empty pending selection has an entry that is not a group label, the
  list returned is not empty.
\<close>

lemma getPackagesToRelease_names_a_package:
  assumes "length allPackages > 1"
    and "getPackagesToRelease changedPackages allPackages w = Inr (pkgs, w')"
    and "\<forall>sel\<in>set (checkboxAnswers w). sel \<noteq> [] \<longrightarrow>
           list_ex (\<lambda>pkgName. pkgName \<noteq> ''changed packages''
                              \<and> pkgName \<noteq> ''unchanged packages'') sel"
  shows "pkgs \<noteq> []"
proof (cases "checkboxAnswers w" rule: selections_cases)
  case (selected n sel rest)
  with getPackagesToRelease_reprompts [OF assms(1), of w n sel rest changedPackages] assms(2)
  have "pkgs = filter (\<lambda>pkgName. pkgName \<noteq> ''changed packages''
                              \<and> pkgName \<noteq> ''unchanged packages'') sel"
    by simp
  moreover from selected assms(3)
  have "list_ex (\<lambda>pkgName. pkgName \<noteq> ''changed packages''
                              \<and> pkgName \<noteq> ''unchanged packages'') sel"
    by simp
  ultimately show ?thesis
    by (simp add: list_ex_iff filter_empty_conv)
next
  case (waiting n)
  with getPackagesToRelease_reprompts [OF assms(1), of w n _ _ changedPackages] assms(2)
  show ?thesis by simp
qed

text \<open>
  C3. In multi-package mode the initial selection is to be rejected and asked again until
  a package is chosen, and \<open>getPackagesToRelease\<close> is never to return a list without a package
  name. The code tests the length of the raw answer and removes the group labels only
  afterwards. At the answer that consists of the label "changed packages" alone the two
  error lines are not logged and the question is not asked again: \<open>getPackagesToRelease\<close>
  returns the empty list after the single question, and \<open>createChangeset\<close> goes on to the
  summary and returns a changeset without any release.
\<close>

theorem getPackagesToRelease_label_only:
  "getPackagesToRelease [''pkg-a'']
     [\<lparr>packageJson = \<lparr>PackageJSON.name = ''pkg-a'', version = ''1.0.0''\<rparr>, dir = ''a''\<rparr>,
      \<lparr>packageJson = \<lparr>PackageJSON.name = ''pkg-b'', version = ''1.0.0''\<rparr>, dir = ''b''\<rparr>]
     (session [[''changed packages'']] [] [] [''a summary''] []) =
   Inr ([], \<lparr>checkboxAnswers = [], confirmAnswers = [], listAnswers = [],
             questionAnswers = [''a summary''], editorAnswers = [],
             trace = [AskCheckboxPlus ''Which packages would you like to include?''
                        [(''changed packages'', [''pkg-a'']), (''unchanged packages'', [''pkg-b''])]]\<rparr>)
   \<and> createChangeset (\<lambda>v b. Some (v = ''0.5.0'')) [''pkg-a'']
     [\<lparr>packageJson = \<lparr>PackageJSON.name = ''pkg-a'', version = ''1.0.0''\<rparr>, dir = ''a''\<rparr>,
      \<lparr>packageJson = \<lparr>PackageJSON.name = ''pkg-b'', version = ''1.0.0''\<rparr>, dir = ''b''\<rparr>]
     (session [[''changed packages'']] [] [] [''a summary''] []) =
   Inr (\<lparr>Changeset.releases = [], summary = ''a summary'', confirmed = False\<rparr>,
        \<lparr>checkboxAnswers = [], confirmAnswers = [], listAnswers = [], questionAnswers = [],
          editorAnswers = [],
          trace = [AskCheckboxPlus ''Which packages would you like to include?''
                     [(''changed packages'', [''pkg-a'']), (''unchanged packages'', [''pkg-b''])],
                   Log ''Please enter a summary for this change (this will be in the changelogs).'',
                   Log ''  (submit empty line to open external editor)'',
                   AskQuestion ''Summary'']\<rparr>)"
proof -
  have g: "getPackagesToRelease [''pkg-a'']
     [\<lparr>packageJson = \<lparr>PackageJSON.name = ''pkg-a'', version = ''1.0.0''\<rparr>, dir = ''a''\<rparr>,
      \<lparr>packageJson = \<lparr>PackageJSON.name = ''pkg-b'', version = ''1.0.0''\<rparr>, dir = ''b''\<rparr>]
     (session [[''changed packages'']] [] [] [''a summary''] []) =
   Inr ([], \<lparr>checkboxAnswers = [], confirmAnswers = [], listAnswers = [],
             questionAnswers = [''a summary''], editorAnswers = [],
             trace = [AskCheckboxPlus ''Which packages would you like to include?''
                        [(''changed packages'', [''pkg-a'']), (''unchanged packages'', [''pkg-b''])]]\<rparr>)"
    by (simp add: getPackagesToRelease_def defaultChoiceList_def askInitialReleaseQuestion_def
        askCheckboxPlus_def emit_def session_def)
  show ?thesis
    unfolding createChangeset_def multiPackageReleases_def g
    by (simp add: g newSet_def bumpTypes_def readSummary_def announceSummary_def askQuestion_def
        emit_def)
qed

section \<open>The summary collector: console answer and editor\<close>


lemma remind_step_empty:
  assumes "questionAnswers w = a # qs"
  shows "remindUntilAnswered reminder [] w =
           remindUntilAnswered reminder a
             (w\<lparr>questionAnswers := qs, trace := trace w @ [AskQuestion reminder]\<rparr>)"
  by (subst remindUntilAnswered.simps) (simp add: assms askQuestion_def emit_def)

lemma remind_step_none:
  assumes "questionAnswers w = []"
  shows "remindUntilAnswered reminder [] w = Inl AwaitingInput"
  by (subst remindUntilAnswered.simps) (simp add: assms askQuestion_def)


lemma remind_waiting:
  "questionAnswers w = replicate n [] \<Longrightarrow> remindUntilAnswered reminder [] w = Inl AwaitingInput"
proof (induction n arbitrary: w)
  case 0
  then show ?case by (simp add: remind_step_none)
next
  case (Suc n)
  from Suc.prems have a: "questionAnswers w = [] # replicate n []" by simp
  show ?case
    unfolding remind_step_empty [OF a] by (rule Suc.IH) simp
qed





lemma readSummary_console:
  assumes "questionAnswers w = a # qs" and "a \<noteq> []"
  shows "readSummary reminder False w =
           Inr ((a, False), w\<lparr>questionAnswers := qs, trace := trace w @ [AskQuestion ''Summary'']\<rparr>)"
  using assms by (simp add: readSummary_def askQuestion_def emit_def)

lemma readSummary_editor:
  assumes "questionAnswers w = [] # qs" and "editorAnswers w = Some t # es" and "t \<noteq> []"
  shows "readSummary reminder False w =
           Inr ((t, True),
                w\<lparr>questionAnswers := qs, editorAnswers := es,
                  trace := trace w @ [AskQuestion ''Summary'', AskQuestionWithEditor editorPlaceholder]\<rparr>)"
  using assms by (simp add: readSummary_def askQuestion_def askQuestionWithEditor_def emit_def)

lemma readSummary_editor_forced:
  assumes "editorAnswers w = Some t # es" and "t \<noteq> []"
  shows "readSummary reminder True w =
           Inr ((t, True),
                w\<lparr>editorAnswers := es,
                  trace := trace w @ [AskQuestionWithEditor editorPlaceholder]\<rparr>)"
  using assms by (simp add: readSummary_def askQuestionWithEditor_def emit_def)


lemma trace_announceSummary:
  "questionAnswers (announceSummary w) = questionAnswers w"
  "editorAnswers (announceSummary w) = editorAnswers w"
  by (simp_all add: announceSummary_def emit_def)

text \<open>
  C4. A non-empty first console answer becomes the summary with \<open>confirmed = False\<close>, and
  nothing but the question "Summary" is asked. When the console answer is empty, or the
  configuration forces the editor (then the console question is not asked at all), and the
  editor returns non-empty text, that text becomes the summary with \<open>confirmed = True\<close>;
  the trace ends with the editor call and the pending console answers are left untouched.
  This holds for \<open>setSummary\<close> and for the summary step of \<open>createChangeset\<close> (which has no
  editor flag).
\<close>

theorem summary_console_or_editor:
  "(\<not> alwaysOpenEditor cfg \<and> questionAnswers w = a # qs \<and> a \<noteq> [] \<longrightarrow>
      setSummary changeSet cfg w =
        Inr (changeSet\<lparr>summary := a, confirmed := False\<rparr>,
             (announceSummary w)\<lparr>questionAnswers := qs,
                trace := trace (announceSummary w) @ [AskQuestion ''Summary'']\<rparr>))
   \<and> (\<not> alwaysOpenEditor cfg \<and> questionAnswers w = [] # qs \<and> editorAnswers w = Some t # es
        \<and> t \<noteq> [] \<longrightarrow>
      setSummary changeSet cfg w =
        Inr (changeSet\<lparr>summary := t, confirmed := True\<rparr>,
             (announceSummary w)\<lparr>questionAnswers := qs, editorAnswers := es,
                trace := trace (announceSummary w)
                  @ [AskQuestion ''Summary'', AskQuestionWithEditor editorPlaceholder]\<rparr>))
   \<and> (alwaysOpenEditor cfg \<and> editorAnswers w = Some t # es \<and> t \<noteq> [] \<longrightarrow>
      setSummary changeSet cfg w =
        Inr (changeSet\<lparr>summary := t, confirmed := True\<rparr>,
             (announceSummary w)\<lparr>editorAnswers := es,
                trace := trace (announceSummary w) @ [AskQuestionWithEditor editorPlaceholder]\<rparr>))
   \<and> ((if length allPackages > 1
         then multiPackageReleases semver_lt changedPackages allPackages w
         else singlePackageRelease semver_lt allPackages w) = Inr (rels, w1) \<longrightarrow>
        (questionAnswers w1 = a # qs \<and> a \<noteq> [] \<longrightarrow>
           createChangeset semver_lt changedPackages allPackages w =
             Inr (\<lparr>Changeset.releases = rels, summary = a, confirmed = False\<rparr>,
                  (announceSummary w1)\<lparr>questionAnswers := qs,
                     trace := trace (announceSummary w1) @ [AskQuestion ''Summary'']\<rparr>))
        \<and> (questionAnswers w1 = [] # qs \<and> editorAnswers w1 = Some t # es \<and> t \<noteq> [] \<longrightarrow>
           createChangeset semver_lt changedPackages allPackages w =
             Inr (\<lparr>Changeset.releases = rels, summary = t, confirmed = True\<rparr>,
                  (announceSummary w1)\<lparr>questionAnswers := qs, editorAnswers := es,
                     trace := trace (announceSummary w1)
                       @ [AskQuestion ''Summary'', AskQuestionWithEditor editorPlaceholder]\<rparr>)))"
proof (intro conjI impI)
  assume "\<not> alwaysOpenEditor cfg \<and> questionAnswers w = a # qs \<and> a \<noteq> []"
  then show "setSummary changeSet cfg w =
        Inr (changeSet\<lparr>summary := a, confirmed := False\<rparr>,
             (announceSummary w)\<lparr>questionAnswers := qs,
                trace := trace (announceSummary w) @ [AskQuestion ''Summary'']\<rparr>)"
    by (simp add: setSummary_def readSummary_console [of "announceSummary w" a qs]
        trace_announceSummary)
next
  assume "\<not> alwaysOpenEditor cfg \<and> questionAnswers w = [] # qs \<and> editorAnswers w = Some t # es
        \<and> t \<noteq> []"
  then show "setSummary changeSet cfg w =
        Inr (changeSet\<lparr>summary := t, confirmed := True\<rparr>,
             (announceSummary w)\<lparr>questionAnswers := qs, editorAnswers := es,
                trace := trace (announceSummary w)
                  @ [AskQuestion ''Summary'', AskQuestionWithEditor editorPlaceholder]\<rparr>)"
    by (simp add: setSummary_def readSummary_editor [of "announceSummary w" qs t es]
        trace_announceSummary)
next
  assume "alwaysOpenEditor cfg \<and> editorAnswers w = Some t # es \<and> t \<noteq> []"
  then show "setSummary changeSet cfg w =
        Inr (changeSet\<lparr>summary := t, confirmed := True\<rparr>,
             (announceSummary w)\<lparr>editorAnswers := es,
                trace := trace (announceSummary w) @ [AskQuestionWithEditor editorPlaceholder]\<rparr>)"
    by (simp add: setSummary_def readSummary_editor_forced [of "announceSummary w" t es]
        trace_announceSummary)
next
  assume r: "(if length allPackages > 1
         then multiPackageReleases semver_lt changedPackages allPackages w
         else singlePackageRelease semver_lt allPackages w) = Inr (rels, w1)"
    and "questionAnswers w1 = a # qs \<and> a \<noteq> []"
  then show "createChangeset semver_lt changedPackages allPackages w =
             Inr (\<lparr>Changeset.releases = rels, summary = a, confirmed = False\<rparr>,
                  (announceSummary w1)\<lparr>questionAnswers := qs,
                     trace := trace (announceSummary w1) @ [AskQuestion ''Summary'']\<rparr>)"
    unfolding createChangeset_def r
    by (simp add: readSummary_console [of "announceSummary w1" a qs] trace_announceSummary)
next
  assume r: "(if length allPackages > 1
         then multiPackageReleases semver_lt changedPackages allPackages w
         else singlePackageRelease semver_lt allPackages w) = Inr (rels, w1)"
    and "questionAnswers w1 = [] # qs \<and> editorAnswers w1 = Some t # es \<and> t \<noteq> []"
  then show "createChangeset semver_lt changedPackages allPackages w =
             Inr (\<lparr>Changeset.releases = rels, summary = t, confirmed = True\<rparr>,
                  (announceSummary w1)\<lparr>questionAnswers := qs, editorAnswers := es,
                     trace := trace (announceSummary w1)
                       @ [AskQuestion ''Summary'', AskQuestionWithEditor editorPlaceholder]\<rparr>)"
    unfolding createChangeset_def r
    by (simp add: readSummary_editor [of "announceSummary w1" qs t es] trace_announceSummary)
qed

theorem summary_console_or_editor_witness:
  "setSummary \<lparr>Changeset.releases = [], summary = [], confirmed = False\<rparr>
     \<lparr>shouldAskForChangeTypes = True, alwaysOpenEditor = False\<rparr>
     (session [] [] [] [[], ''later''] [Some ''from the editor'']) =
   Inr (\<lparr>Changeset.releases = [], summary = ''from the editor'', confirmed = True\<rparr>,
        (announceSummary (session [] [] [] [[], ''later''] [Some ''from the editor'']))
          \<lparr>questionAnswers := [''later''], editorAnswers := [],
            trace := trace (announceSummary (session [] [] [] [[], ''later''] [Some ''from the editor'']))
              @ [AskQuestion ''Summary'', AskQuestionWithEditor editorPlaceholder]\<rparr>)"
  using summary_console_or_editor
    [where cfg = "\<lparr>shouldAskForChangeTypes = True, alwaysOpenEditor = False\<rparr>"
       and w = "session [] [] [] [[], ''later''] [Some ''from the editor'']"
       and qs = "[''later'']" and t = "''from the editor''" and es = "[]"
       and changeSet = "\<lparr>Changeset.releases = [], summary = [], confirmed = False\<rparr>"]
  by (simp add: session_def)

section \<open>The changeset writer\<close>

lemma storeWrites_append: "storeWrites (xs @ ys) = storeWrites xs @ storeWrites ys"
  by (simp add: storeWrites_def)

lemma persist_effect:
  "storeWrites (trace (persist args c w)) = storeWrites (trace w) @ [c]"
  "filter isVcsOp (trace (persist args c w)) = filter isVcsOp (trace w) @ vcsOpsFor args c"
  "filter isConfirmation (trace (persist args c w)) = filter isConfirmation (trace w)"
  "confirmAnswers (persist args c w) = confirmAnswers w"
  by (simp_all add: persist_def warnIfMajor_def emit_def Let_def storeWrites_def isVcsOp_def
      isConfirmation_def vcsOpsFor_def split: option.splits)

lemma writeChangesetList_confirmed:
  "confirmed c \<Longrightarrow>
   writeChangesetList args (c # cs) w =
     writeChangesetList args cs
       (persist args c (emit (PrintConfirmationMessage c (multiplePackages args)) w))"
  by simp

lemma writeChangesetList_asked:
  "\<not> confirmed c \<Longrightarrow> confirmAnswers w = b # bs \<Longrightarrow>
   writeChangesetList args (c # cs) w =
     (let w1 = emit (AskConfirm ''Is this your desired changeset?'')
                 (emit (PrintConfirmationMessage c (multiplePackages args)) w
                    \<lparr>confirmAnswers := bs\<rparr>)
      in if b then writeChangesetList args cs (persist args (c\<lparr>confirmed := True\<rparr>) w1)
         else writeChangesetList args cs w1)"
  by (simp add: askConfirm_def emit_def Let_def)

lemma writeChangesetList_waiting:
  "\<not> confirmed c \<Longrightarrow> confirmAnswers w = [] \<Longrightarrow>
   writeChangesetList args (c # cs) w = Inl AwaitingInput"
  by (simp add: askConfirm_def emit_def)

lemma writeChangesetList_effect:
  "writeChangesetList args cs w = Inr (u, w') \<Longrightarrow>
     storeWrites (trace w') = storeWrites (trace w) @ accepted cs (confirmAnswers w)
   \<and> filter isVcsOp (trace w') =
       filter isVcsOp (trace w) @ concat (map (vcsOpsFor args) (accepted cs (confirmAnswers w)))
   \<and> length (filter isConfirmation (trace w')) =
       length (filter isConfirmation (trace w)) + length (filter (\<lambda>c. \<not> confirmed c) cs)
   \<and> confirmAnswers w' = drop (length (filter (\<lambda>c. \<not> confirmed c) cs)) (confirmAnswers w)"
proof (induction cs arbitrary: w)
  case Nil
  then show ?case by simp
next
  case (Cons c cs)
  let ?w0 = "emit (PrintConfirmationMessage c (multiplePackages args)) w"
  have w0: "storeWrites (trace ?w0) = storeWrites (trace w)"
    "filter isVcsOp (trace ?w0) = filter isVcsOp (trace w)"
    "filter isConfirmation (trace ?w0) = filter isConfirmation (trace w)"
    "confirmAnswers ?w0 = confirmAnswers w"
    by (simp_all add: emit_def storeWrites_def isVcsOp_def isConfirmation_def)
  show ?case
  proof (cases "confirmed c")
    case True
    from Cons.prems True have "writeChangesetList args cs (persist args c ?w0) = Inr (u, w')"
      by (simp only: writeChangesetList_confirmed)
    from Cons.IH [OF this] True show ?thesis
      by (simp add: persist_effect w0)
  next
    case False
    show ?thesis
    proof (cases "confirmAnswers w")
      case Nil
      from Cons.prems show ?thesis
        by (simp only: writeChangesetList_waiting [OF False Nil]) simp
    next
      case answers: (Cons b bs)
      let ?w1 = "emit (AskConfirm ''Is this your desired changeset?'')
                 (emit (PrintConfirmationMessage c (multiplePackages args)) w
                    \<lparr>confirmAnswers := bs\<rparr>)"
      have w1: "storeWrites (trace ?w1) = storeWrites (trace w)"
        "filter isVcsOp (trace ?w1) = filter isVcsOp (trace w)"
        "length (filter isConfirmation (trace ?w1)) = Suc (length (filter isConfirmation (trace w)))"
        "confirmAnswers ?w1 = bs"
        by (simp_all add: emit_def storeWrites_def isVcsOp_def isConfirmation_def)
      show ?thesis
      proof (cases b)
        case True
        from Cons.prems True
        have "writeChangesetList args cs (persist args (c\<lparr>confirmed := True\<rparr>) ?w1) = Inr (u, w')"
          by (simp only: writeChangesetList_asked [OF False answers] Let_def if_True)
        from Cons.IH [OF this] False answers True show ?thesis
          by (simp add: persist_effect w1)
      next
        case declined: False
        from Cons.prems declined
        have "writeChangesetList args cs ?w1 = Inr (u, w')"
          by (simp only: writeChangesetList_asked [OF False answers] Let_def if_False)
        from Cons.IH [OF this] False answers declined show ?thesis
          by (simp add: w1)
      qed
    qed
  qed
qed

lemma writeChangesetList_returns:
  "length (filter (\<lambda>c. \<not> confirmed c) cs) \<le> length (confirmAnswers w) \<Longrightarrow>
   \<exists>w'. writeChangesetList args cs w = Inr ((), w')"
proof (induction cs arbitrary: w)
  case Nil
  then show ?case by simp
next
  case (Cons c cs)
  show ?case
  proof (cases "confirmed c")
    case True
    have "\<exists>w'. writeChangesetList args cs
            (persist args c (emit (PrintConfirmationMessage c (multiplePackages args)) w)) = Inr ((), w')"
      using Cons.prems True by (intro Cons.IH) (simp add: persist_effect emit_def)
    then show ?thesis by (simp only: writeChangesetList_confirmed [OF True])
  next
    case False
    with Cons.prems obtain b bs where answers: "confirmAnswers w = b # bs"
      by (cases "confirmAnswers w") auto
    let ?w1 = "emit (AskConfirm ''Is this your desired changeset?'')
                 (emit (PrintConfirmationMessage c (multiplePackages args)) w
                    \<lparr>confirmAnswers := bs\<rparr>)"
    have enough: "length (filter (\<lambda>c. \<not> confirmed c) cs) \<le> length (confirmAnswers ?w1)"
      using Cons.prems False answers by (simp add: emit_def)
    have "\<exists>w'. writeChangesetList args cs (persist args (c\<lparr>confirmed := True\<rparr>) ?w1) = Inr ((), w')"
      using enough by (intro Cons.IH) (simp add: persist_effect)
    moreover have "\<exists>w'. writeChangesetList args cs ?w1 = Inr ((), w')"
      using enough by (intro Cons.IH)
    ultimately show ?thesis
      by (simp only: writeChangesetList_asked [OF False answers] Let_def split: if_splits) simp
  qed
qed

text \<open>
  C8. When enough answers are pending for the changesets not yet confirmed, the writer
  returns, and in what it added to the trace: the changesets handed to the store are
  exactly the accepted ones, in order (so a changeset that was not confirmed and is
  declined is not written, and the loop goes on with the next one); the version-control
  operations are exactly those of the accepted changesets; and the confirmation question
  was asked once for each changeset that came in unconfirmed, never for a confirmed one.
\<close>

theorem writeChangesetList_persists_accepted:
  assumes "length (filter (\<lambda>c. \<not> confirmed c) cs) \<le> length (confirmAnswers w)"
  shows "\<exists>w'. writeChangesetList args cs w = Inr ((), w')
     \<and> storeWrites (trace w') = storeWrites (trace w) @ accepted cs (confirmAnswers w)
     \<and> filter isVcsOp (trace w') =
         filter isVcsOp (trace w) @ concat (map (vcsOpsFor args) (accepted cs (confirmAnswers w)))
     \<and> length (filter isConfirmation (trace w')) =
         length (filter isConfirmation (trace w)) + length (filter (\<lambda>c. \<not> confirmed c) cs)
     \<and> confirmAnswers w' = drop (length (filter (\<lambda>c. \<not> confirmed c) cs)) (confirmAnswers w)"
proof -
  from writeChangesetList_returns [OF assms]
  obtain w' where r: "writeChangesetList args cs w = Inr ((), w')" by blast
  from writeChangesetList_effect [OF r] r show ?thesis by blast
qed

theorem writeChangesetList_persists_accepted_witness:
  "\<exists>w'. writeChangesetList
          \<lparr>multiplePackages = True, cwd = ''/repo'', changesetBase = ''/repo/.changeset'',
            empty = False, getAddMessage = Some (\<lambda>c. ''docs(changeset): '' @ summary c),
            openFlag = False, writeChangeset = (\<lambda>c d. ''abcdefg'')\<rparr>
          [\<lparr>Changeset.releases = [], summary = ''one'', confirmed = False\<rparr>,
           \<lparr>Changeset.releases = [], summary = ''two'', confirmed = True\<rparr>,
           \<lparr>Changeset.releases = [], summary = ''three'', confirmed = False\<rparr>]
          (session [] [False, True] [] [] []) = Inr ((), w')
     \<and> storeWrites (trace w') =
         [\<lparr>Changeset.releases = [], summary = ''two'', confirmed = True\<rparr>,
          \<lparr>Changeset.releases = [], summary = ''three'', confirmed = True\<rparr>]
     \<and> filter isVcsOp (trace w') =
         [GitAdd ''/repo/.changeset/abcdefg.md'' ''/repo'', GitCommit ''docs(changeset): two'' ''/repo'',
          GitAdd ''/repo/.changeset/abcdefg.md'' ''/repo'', GitCommit ''docs(changeset): three'' ''/repo'']
     \<and> length (filter isConfirmation (trace w')) = 2
     \<and> confirmAnswers w' = []"
proof -
  let ?args = "\<lparr>multiplePackages = True, cwd = ''/repo'', changesetBase = ''/repo/.changeset'',
            empty = False, getAddMessage = Some (\<lambda>c. ''docs(changeset): '' @ summary c),
            openFlag = False, writeChangeset = (\<lambda>c d. ''abcdefg'')\<rparr>"
  let ?cs = "[\<lparr>Changeset.releases = [], summary = ''one'', confirmed = False\<rparr>,
          \<lparr>Changeset.releases = [], summary = ''two'', confirmed = True\<rparr>,
          \<lparr>Changeset.releases = [], summary = ''three'', confirmed = False\<rparr>]"
  let ?w = "session [] [False, True] [] [] []"
  have enough: "length (filter (\<lambda>c. \<not> confirmed c) ?cs) \<le> length (confirmAnswers ?w)"
    by (simp add: session_def)
  have acc: "accepted ?cs (confirmAnswers ?w) =
         [\<lparr>Changeset.releases = [], summary = ''two'', confirmed = True\<rparr>,
          \<lparr>Changeset.releases = [], summary = ''three'', confirmed = True\<rparr>]"
    by (simp add: session_def)
  have start: "storeWrites (trace ?w) = []" "filter isVcsOp (trace ?w) = []"
    "filter isConfirmation (trace ?w) = []" "confirmAnswers ?w = [False, True]"
    by (simp_all add: session_def storeWrites_def)
  from writeChangesetList_persists_accepted [OF enough, of ?args]
  obtain w' where "writeChangesetList ?args ?cs ?w = Inr ((), w')"
    and "storeWrites (trace w') = storeWrites (trace ?w) @ accepted ?cs (confirmAnswers ?w)"
    and "filter isVcsOp (trace w') =
         filter isVcsOp (trace ?w) @ concat (map (vcsOpsFor ?args) (accepted ?cs (confirmAnswers ?w)))"
    and "length (filter isConfirmation (trace w')) =
         length (filter isConfirmation (trace ?w)) + length (filter (\<lambda>c. \<not> confirmed c) ?cs)"
    and "confirmAnswers w' = drop (length (filter (\<lambda>c. \<not> confirmed c) ?cs)) (confirmAnswers ?w)"
    by blast
  then show ?thesis
    unfolding acc start
    by (intro exI [of _ w']) (simp add: vcsOpsFor_def pathResolve_def)
qed

section \<open>The summary collector: falling back to the console\<close>











section \<open>The first major release\<close>

lemma confirmMajorRelease_auto:
  "semver_lt (version pkgJSON) ''1.0.0'' = Some False \<Longrightarrow>
   confirmMajorRelease semver_lt pkgJSON w = Inr (True, w)"
  by (simp add: confirmMajorRelease_def)

lemma confirmMajorRelease_asked:
  "semver_lt (version pkgJSON) ''1.0.0'' = Some True \<Longrightarrow> confirmAnswers w = b # bs \<Longrightarrow>
   \<exists>w'. confirmMajorRelease semver_lt pkgJSON w = Inr (b, w')"
  by (simp add: confirmMajorRelease_def askConfirm_def emit_def)

text \<open>
  C7. With a single package, when the user chooses "major", the version is below 1.0.0
  (\<open>semver_lt\<close> stands for \<^verbatim>\<open>semver.lt\<close>) and the confirmation is declined,
  \<open>createChangeset\<close> ends with \<open>ExitError 1\<close>, whatever else is pending. When the version is
  not below 1.0.0 the confirmation returns \<open>True\<close> and leaves the world as it was: nothing
  is asked or logged, and the release is recorded as major right after the list question.
\<close>

theorem single_package_first_major:
  "(semver_lt (version (packageJson pkg)) ''1.0.0'' = Some True \<and> listAnswers w = ''major'' # ls
      \<and> confirmAnswers w = False # bs \<longrightarrow>
      createChangeset semver_lt changedPackages [pkg] w = Inl (ExitError 1))
   \<and> (semver_lt (version (packageJson pkg)) ''1.0.0'' = Some False \<longrightarrow>
        confirmMajorRelease semver_lt (packageJson pkg) w = Inr (True, w)
        \<and> (listAnswers w = ''major'' # ls \<longrightarrow>
             singlePackageRelease semver_lt [pkg] w =
               Inr ([\<lparr>name = PackageJSON.name (packageJson pkg), type = ''major'', changeTypes = None\<rparr>],
                    w\<lparr>listAnswers := ls,
                      trace := trace w @
                        [AskList (''What kind of change is this for '' @ PackageJSON.name (packageJson pkg)
                                    @ ''? (current version is '' @ version (packageJson pkg) @ '')'')
                           [''patch'', ''minor'', ''major'']]\<rparr>)))"
  by (simp add: createChangeset_def singlePackageRelease_def askList_def emit_def
      confirmMajorRelease_def askConfirm_def)

theorem single_package_first_major_witness:
  "createChangeset (\<lambda>v b. Some (v = ''0.5.0'')) []
     [\<lparr>packageJson = \<lparr>PackageJSON.name = ''pkg-a'', version = ''0.5.0''\<rparr>, dir = ''a''\<rparr>]
     (session [] [False] [''major''] [''never asked''] []) = Inl (ExitError 1)"
  using single_package_first_major
    [where semver_lt = "\<lambda>v b. Some (v = ''0.5.0'')"
       and pkg = "\<lparr>packageJson = \<lparr>PackageJSON.name = ''pkg-a'', version = ''0.5.0''\<rparr>, dir = ''a''\<rparr>"
       and w = "session [] [False] [''major''] [''never asked''] []" and ls = "[]" and bs = "[]"
       and changedPackages = "[]"]
  by (simp add: session_def)

section \<open>Reusing a previous description\<close>

lemma getProperty_plain:
  "key \<notin> set objectPrototypeMembers \<Longrightarrow> getProperty obj key = obj key"
  by (auto simp: getProperty_def objectPrototypeMembers_def split: option.splits)

lemma setProperty_plain:
  "key \<notin> set objectPrototypeMembers \<Longrightarrow> setProperty obj key v = obj(key \<mapsto> v)"
  by (auto simp: setProperty_def objectPrototypeMembers_def)

lemma getDescription_step:
  assumes t: "title c \<notin> set objectPrototypeMembers"
    and r: "pa (title c) = Some p \<or> (p = [] \<and> pa (title c) = None)"
    and a: "allowed p dec"
    and cf: "confirmAnswers w = confirmsFor p dec @ bs"
    and qa: "questionAnswers w = questionsFor dec @ qs"
  shows "getDescriptionWithPreviousAnswer pa c w =
           Inr ((describe p dec, (case dec of Reuse \<Rightarrow> pa | Fresh d \<Rightarrow> pa(title c \<mapsto> d))),
                w\<lparr>confirmAnswers := bs, questionAnswers := qs,
                  trace := trace w @ eventsFor c p dec\<rparr>)"
proof (cases dec)
  case Reuse
  with a have p: "p \<noteq> []" by (simp add: allowed_def)
  with r have "pa (title c) = Some p" by simp
  with Reuse p cf qa t show ?thesis
    by (simp add: getDescriptionWithPreviousAnswer_def getProperty_plain setProperty_plain
        askConfirm_def emit_def describe_def confirmsFor_def questionsFor_def eventsFor_def)
next
  case (Fresh d)
  show ?thesis
  proof (cases "p = []")
    case True
    with r have "pa (title c) = Some [] \<or> pa (title c) = None" by auto
    with Fresh True cf qa t show ?thesis
      by (auto simp: getDescriptionWithPreviousAnswer_def getProperty_plain setProperty_plain
          askQuestion_def emit_def describe_def confirmsFor_def questionsFor_def eventsFor_def)
  next
    case False
    with r have "pa (title c) = Some p" by simp
    with Fresh False cf qa t show ?thesis
      by (simp add: getDescriptionWithPreviousAnswer_def getProperty_plain setProperty_plain
          askConfirm_def askQuestion_def emit_def describe_def confirmsFor_def questionsFor_def
          eventsFor_def)
  qed
qed


lemma describeCategories_run:
  "distinct (map title cs) \<Longrightarrow> \<forall>c\<in>set cs. title c \<notin> set objectPrototypeMembers \<Longrightarrow>
   list_all2 allowed prev decs \<Longrightarrow> list_all2 (recorded pa) cs prev \<Longrightarrow>
   confirmAnswers w = roundConfirms prev decs @ bs \<Longrightarrow>
   questionAnswers w = roundQuestions decs @ qs \<Longrightarrow>
   \<exists>pa'. describeCategories cs pa acc w =
            Inr ((acc @ map (\<lambda>(d, cat). \<lparr>description = d, category = cat\<rparr>)
                          (zip (roundDescriptions prev decs) cs), pa'),
                 w\<lparr>confirmAnswers := bs, questionAnswers := qs,
                   trace := trace w @ roundEvents cs prev decs\<rparr>)
          \<and> list_all2 (recorded pa') cs (roundDescriptions prev decs)
          \<and> (\<forall>t. t \<notin> title ` set cs \<longrightarrow> pa' t = pa t)"
proof (induction cs arbitrary: prev decs pa acc w)
  case Nil
  then show ?case
    by (simp add: roundConfirms_def roundQuestions_def roundEvents_def roundDescriptions_def)
next
  case (Cons c cs)
  from Cons.prems(4) obtain p ps where prev: "prev = p # ps"
    and rc: "recorded pa c p" and rcs: "list_all2 (recorded pa) cs ps"
    by (auto simp: list_all2_Cons1)
  from Cons.prems(3) prev obtain dec ds where decs: "decs = dec # ds"
    and al: "allowed p dec" and als: "list_all2 allowed ps ds"
    by (auto simp: list_all2_Cons1)
  from Cons.prems(1) have dist: "distinct (map title cs)" and fresh: "title c \<notin> title ` set cs"
    by simp_all
  from Cons.prems(2) have t: "title c \<notin> set objectPrototypeMembers"
    and ts: "\<forall>c\<in>set cs. title c \<notin> set objectPrototypeMembers" by simp_all
  define pa1 where "pa1 = (case dec of Reuse \<Rightarrow> pa | Fresh d \<Rightarrow> pa(title c \<mapsto> d))"
  define w1 where "w1 = w\<lparr>confirmAnswers := roundConfirms ps ds @ bs,
                          questionAnswers := roundQuestions ds @ qs,
                          trace := trace w @ eventsFor c p dec\<rparr>"
  have cf: "confirmAnswers w = confirmsFor p dec @ (roundConfirms ps ds @ bs)"
    using Cons.prems(5) by (simp add: prev decs roundConfirms_def)
  have qa: "questionAnswers w = questionsFor dec @ (roundQuestions ds @ qs)"
    using Cons.prems(6) by (simp add: decs roundQuestions_def)
  from rc have rc': "pa (title c) = Some p \<or> (p = [] \<and> pa (title c) = None)"
    by (simp add: recorded_def)
  have step: "getDescriptionWithPreviousAnswer pa c w = Inr ((describe p dec, pa1), w1)"
    unfolding pa1_def w1_def by (rule getDescription_step [where pa = pa and c = c, OF t rc' al cf qa])
  have other: "\<And>t. t \<noteq> title c \<Longrightarrow> pa1 t = pa t"
    by (simp add: pa1_def split: decision.splits)
  have here: "pa1 (title c) = Some (describe p dec)"
  proof (cases dec)
    case Reuse
    with al rc' show ?thesis by (simp add: pa1_def describe_def allowed_def)
  next
    case (Fresh d)
    then show ?thesis by (simp add: pa1_def describe_def)
  qed
  have rcs1: "list_all2 (recorded pa1) cs ps"
  proof -
    have "\<And>c' p'. c' \<in> set cs \<Longrightarrow> recorded pa c' p' \<Longrightarrow> recorded pa1 c' p'"
    proof -
      fix c' p' assume "c' \<in> set cs" and r: "recorded pa c' p'"
      with fresh have "title c' \<noteq> title c" by (metis imageI)
      then have "pa1 (title c') = pa (title c')" by (rule other)
      with r show "recorded pa1 c' p'" by (simp add: recorded_def)
    qed
    with rcs show ?thesis
      by (auto simp: list_all2_conv_all_nth)
  qed
  have cf1: "confirmAnswers w1 = roundConfirms ps ds @ bs" by (simp add: w1_def)
  have qa1: "questionAnswers w1 = roundQuestions ds @ qs" by (simp add: w1_def)
  from Cons.IH [OF dist ts als rcs1 cf1 qa1, of "acc @ [\<lparr>description = describe p dec, category = c\<rparr>]"]
  obtain pa' where
    run: "describeCategories cs pa1 (acc @ [\<lparr>description = describe p dec, category = c\<rparr>]) w1 =
            Inr (((acc @ [\<lparr>description = describe p dec, category = c\<rparr>])
                    @ map (\<lambda>(d, cat). \<lparr>description = d, category = cat\<rparr>)
                          (zip (roundDescriptions ps ds) cs), pa'),
                 w1\<lparr>confirmAnswers := bs, questionAnswers := qs,
                   trace := trace w1 @ roundEvents cs ps ds\<rparr>)"
    and rec': "list_all2 (recorded pa') cs (roundDescriptions ps ds)"
    and same: "\<forall>t. t \<notin> title ` set cs \<longrightarrow> pa' t = pa1 t"
    by blast
  have one: "describeCategories (c # cs) pa acc w =
            Inr ((acc @ map (\<lambda>(d, cat). \<lparr>description = d, category = cat\<rparr>)
                          (zip (roundDescriptions prev decs) (c # cs)), pa'),
                 w\<lparr>confirmAnswers := bs, questionAnswers := qs,
                   trace := trace w @ roundEvents (c # cs) prev decs\<rparr>)"
  proof -
    have "describeCategories (c # cs) pa acc w =
            describeCategories cs pa1 (acc @ [\<lparr>description = describe p dec, category = c\<rparr>]) w1"
      by (simp add: step)
    also note run
    also have "Inr (((acc @ [\<lparr>description = describe p dec, category = c\<rparr>])
                    @ map (\<lambda>(d, cat). \<lparr>description = d, category = cat\<rparr>)
                          (zip (roundDescriptions ps ds) cs), pa'),
                 w1\<lparr>confirmAnswers := bs, questionAnswers := qs,
                   trace := trace w1 @ roundEvents cs ps ds\<rparr>) =
            Inr ((acc @ map (\<lambda>(d, cat). \<lparr>description = d, category = cat\<rparr>)
                          (zip (roundDescriptions prev decs) (c # cs)), pa'),
                 w\<lparr>confirmAnswers := bs, questionAnswers := qs,
                   trace := trace w @ roundEvents (c # cs) prev decs\<rparr>)"
      by (simp add: prev decs roundDescriptions_def roundEvents_def w1_def)
    finally show ?thesis .
  qed
  from same fresh here have "pa' (title c) = Some (describe p dec)" by simp
  with rec' have two: "list_all2 (recorded pa') (c # cs) (roundDescriptions prev decs)"
    by (simp add: prev decs roundDescriptions_def recorded_def)
  from same other have three: "\<forall>t. t \<notin> title ` set (c # cs) \<longrightarrow> pa' t = pa t" by simp
  from one two three show ?case by blast
qed

lemma roundDescriptions_length:
  "list_all2 allowed prev decs \<Longrightarrow> length (roundDescriptions prev decs) = length prev"
  by (auto simp: roundDescriptions_def dest: list_all2_lengthD)

lemma getReleasesPerPackageLoop_run:
  "distinct (map title cats) \<Longrightarrow> \<forall>c\<in>set cats. title c \<notin> set objectPrototypeMembers \<Longrightarrow>
   length script = length rels \<Longrightarrow> scriptAllowed prev script \<Longrightarrow>
   list_all2 (recorded pa) cats prev \<Longrightarrow>
   confirmAnswers w = scriptConfirms prev script @ bs \<Longrightarrow>
   questionAnswers w = scriptQuestions script @ qs \<Longrightarrow>
   getReleasesPerPackageLoop rels cats pa acc w =
     Inr (acc @ map (\<lambda>(rel, ds). withChangeTypes cats rel ds)
                  (zip rels (scriptDescriptions prev script)),
          w\<lparr>confirmAnswers := bs, questionAnswers := qs,
            trace := trace w @ scriptEvents cats prev rels script\<rparr>)"
proof (induction rels arbitrary: script prev pa acc w)
  case Nil
  then show ?case by (simp add: scriptQuestions_def)
next
  case (Cons rel rels)
  from Cons.prems(3) obtain decs rest where script: "script = decs # rest"
    and len: "length rest = length rels"
    by (cases script) auto
  from Cons.prems(4) script have al: "list_all2 allowed prev decs"
    and als: "scriptAllowed (roundDescriptions prev decs) rest"
    by (simp_all add: roundAllowed_def)
  define w0 where "w0 = emit (Log (type rel @ '' : '' @ Release.name rel)) w"
  have cf: "confirmAnswers w0 = roundConfirms prev decs
              @ (scriptConfirms (roundDescriptions prev decs) rest @ bs)"
    using Cons.prems(6) by (simp add: script w0_def emit_def)
  have qa: "questionAnswers w0 = roundQuestions decs @ (scriptQuestions rest @ qs)"
    using Cons.prems(7) by (simp add: script w0_def emit_def scriptQuestions_def)
  from describeCategories_run [OF Cons.prems(1) Cons.prems(2) al Cons.prems(5) cf qa, of "[]"]
  obtain pa' where
    d: "describeCategories cats pa [] w0 =
          Inr ((map (\<lambda>(d, cat). \<lparr>description = d, category = cat\<rparr>)
                          (zip (roundDescriptions prev decs) cats), pa'),
               w0\<lparr>confirmAnswers := scriptConfirms (roundDescriptions prev decs) rest @ bs,
                  questionAnswers := scriptQuestions rest @ qs,
                  trace := trace w0 @ roundEvents cats prev decs\<rparr>)"
    and rec': "list_all2 (recorded pa') cats (roundDescriptions prev decs)"
    by auto
  define w1 where "w1 = w0\<lparr>confirmAnswers := scriptConfirms (roundDescriptions prev decs) rest @ bs,
                  questionAnswers := scriptQuestions rest @ qs,
                  trace := trace w0 @ roundEvents cats prev decs\<rparr>"
  have cf1: "confirmAnswers w1 = scriptConfirms (roundDescriptions prev decs) rest @ bs"
    by (simp add: w1_def)
  have qa1: "questionAnswers w1 = scriptQuestions rest @ qs" by (simp add: w1_def)
  note ih = Cons.IH [OF Cons.prems(1) Cons.prems(2) len als rec' cf1 qa1,
      of "acc @ [withChangeTypes cats rel (roundDescriptions prev decs)]"]
  have "getReleasesPerPackageLoop (rel # rels) cats pa acc w =
          getReleasesPerPackageLoop rels cats pa'
            (acc @ [withChangeTypes cats rel (roundDescriptions prev decs)]) w1"
    using d [folded w1_def, unfolded w0_def] by (simp add: withChangeTypes_def)
  also note ih
  also have "Inr ((acc @ [withChangeTypes cats rel (roundDescriptions prev decs)]) @
          map (\<lambda>(rel, ds). withChangeTypes cats rel ds)
            (zip rels (scriptDescriptions (roundDescriptions prev decs) rest)),
          w1\<lparr>confirmAnswers := bs, questionAnswers := qs,
             trace := trace w1 @ scriptEvents cats (roundDescriptions prev decs) rels rest\<rparr>) =
        Inr (acc @ map (\<lambda>(rel, ds). withChangeTypes cats rel ds)
                  (zip (rel # rels) (scriptDescriptions prev script)),
          w\<lparr>confirmAnswers := bs, questionAnswers := qs,
            trace := trace w @ scriptEvents cats prev (rel # rels) script\<rparr>)"
    by (simp add: script w1_def w0_def emit_def)
  finally show ?case .
qed


lemma recorded_empty: "list_all2 (recorded Map.empty) cats (replicate (length cats) [])"
  by (simp add: list_all2_conv_all_nth recorded_def)

lemma getReleasesPerPackage_run:
  assumes "distinct (map title cats)" and "\<forall>c\<in>set cats. title c \<notin> set objectPrototypeMembers"
    and "length script = length rels"
    and "scriptAllowed (replicate (length cats) []) script"
    and "confirmAnswers w = scriptConfirms (replicate (length cats) []) script @ bs"
    and "questionAnswers w = scriptQuestions script @ qs"
  shows "getReleasesPerPackage rels cats w =
     Inr (map (\<lambda>(rel, ds). withChangeTypes cats rel ds)
            (zip rels (scriptDescriptions (replicate (length cats) []) script)),
          w\<lparr>confirmAnswers := bs, questionAnswers := qs,
            trace := trace w @ scriptEvents cats (replicate (length cats) []) rels script\<rparr>)"
  using getReleasesPerPackageLoop_run [OF assms(1-4) recorded_empty assms(5,6), of "[]"]
  by (simp add: getReleasesPerPackage_def)

lemma roundDescriptions_fresh:
  "length prev = length ds \<Longrightarrow> roundDescriptions prev (map Fresh ds) = ds"
  by (induction prev ds rule: list_induct2) (simp_all add: roundDescriptions_def describe_def)

lemma roundDescriptions_reuse:
  "roundDescriptions ds (replicate (length ds) Reuse) = ds"
  by (induction ds) (simp_all add: roundDescriptions_def describe_def)

lemma roundConfirms_first:
  "roundConfirms (replicate k []) decs = []"
  by (auto simp: roundConfirms_def confirmsFor_def dest!: set_zip_leftD)

lemma roundConfirms_reuse:
  "\<forall>d\<in>set ds. d \<noteq> [] \<Longrightarrow> roundConfirms ds (replicate (length ds) Reuse) = replicate (length ds) True"
  by (induction ds) (simp_all add: roundConfirms_def confirmsFor_def)

lemma roundConfirms_fresh:
  "length ds = length ds' \<Longrightarrow> \<forall>d\<in>set ds. d \<noteq> [] \<Longrightarrow>
   roundConfirms ds (map Fresh ds') = replicate (length ds) False"
  by (induction ds ds' rule: list_induct2) (simp_all add: roundConfirms_def confirmsFor_def)

lemma roundQuestions_fresh: "roundQuestions (map Fresh ds) = ds"
  by (induction ds) (simp_all add: roundQuestions_def questionsFor_def)

lemma roundQuestions_reuse: "roundQuestions (replicate k Reuse) = []"
  by (induction k) (simp_all add: roundQuestions_def questionsFor_def)

lemma roundAllowed_fresh: "length prev = length ds \<Longrightarrow> roundAllowed prev (map Fresh ds)"
  by (induction prev ds rule: list_induct2) (simp_all add: roundAllowed_def allowed_def)

lemma roundAllowed_reuse:
  "\<forall>d\<in>set ds. d \<noteq> [] \<Longrightarrow> roundAllowed ds (replicate (length ds) Reuse)"
  by (induction ds) (simp_all add: roundAllowed_def allowed_def)

lemma script_reuse:
  assumes "\<forall>d\<in>set ds. d \<noteq> []"
  shows "scriptDescriptions ds (replicate n (replicate (length ds) Reuse)) = replicate n ds"
    and "scriptAllowed ds (replicate n (replicate (length ds) Reuse))"
    and "scriptConfirms ds (replicate n (replicate (length ds) Reuse))
           = replicate (n * length ds) True"
    and "scriptQuestions (replicate n (replicate (length ds) Reuse)) = []"
proof -
  show "scriptDescriptions ds (replicate n (replicate (length ds) Reuse)) = replicate n ds"
    by (induction n) (simp_all add: roundDescriptions_reuse)
  show "scriptAllowed ds (replicate n (replicate (length ds) Reuse))"
    by (induction n) (simp_all add: roundDescriptions_reuse roundAllowed_reuse [OF assms])
  show "scriptConfirms ds (replicate n (replicate (length ds) Reuse))
           = replicate (n * length ds) True"
    by (induction n)
       (simp_all add: roundDescriptions_reuse roundConfirms_reuse [OF assms] replicate_add)
  show "scriptQuestions (replicate n (replicate (length ds) Reuse)) = []"
    by (simp add: scriptQuestions_def roundQuestions_reuse)
qed

lemma getReleasesPerPackage_accept_all:
  assumes "distinct (map title cats)" and "\<forall>c\<in>set cats. title c \<notin> set objectPrototypeMembers"
    and len: "length ds = length cats" and ne: "\<forall>d\<in>set ds. d \<noteq> []"
    and cf: "confirmAnswers w = replicate (length rest * length cats) True @ bs"
    and qa: "questionAnswers w = ds @ qs"
  shows "\<exists>w'. getReleasesPerPackage (r # rest) cats w =
                Inr (map (\<lambda>rel. withChangeTypes cats rel ds) (r # rest), w')
            \<and> confirmAnswers w' = bs \<and> questionAnswers w' = qs"
proof -
  let ?script = "map Fresh ds # replicate (length rest) (replicate (length ds) Reuse)"
  note sr = script_reuse [OF ne, of "length rest"]
  have l: "length (replicate (length cats) ([] :: string)) = length ds" using len by simp
  have a: "length ?script = length (r # rest)" by simp
  have b: "scriptAllowed (replicate (length cats) []) ?script"
    by (simp add: roundAllowed_fresh [OF l] roundDescriptions_fresh [OF l] sr)
  from cf len have cf': "confirmAnswers w = replicate (length rest * length ds) True @ bs"
    by simp
  have c: "confirmAnswers w = scriptConfirms (replicate (length cats) []) ?script @ bs"
    using cf' by (simp add: roundConfirms_first roundDescriptions_fresh [OF l] sr)
  have d: "questionAnswers w = scriptQuestions ?script @ qs"
    using qa sr(4) by (simp add: scriptQuestions_def roundQuestions_fresh)
  have e: "scriptDescriptions (replicate (length cats) []) ?script = replicate (Suc (length rest)) ds"
    by (simp add: roundDescriptions_fresh [OF l] sr)
  have z: "zip (r # rest) (replicate (Suc (length rest)) ds) = map (\<lambda>rel. (rel, ds)) (r # rest)"
    by (simp add: zip_replicate2 del: replicate_Suc)
  show ?thesis
    unfolding getReleasesPerPackage_run [OF assms(1,2) a b c d] e z
    by (simp add: comp_def)
qed

lemma getReleasesPerPackage_decline_all:
  assumes "distinct (map title cats)" and "\<forall>c\<in>set cats. title c \<notin> set objectPrototypeMembers"
    and len: "length ds = length cats" and ne: "\<forall>d\<in>set ds. d \<noteq> []"
    and len': "length ds' = length cats" and ne': "\<forall>d\<in>set ds'. d \<noteq> []"
    and cf: "confirmAnswers w = replicate (length cats) False @ replicate (length cats) True @ bs"
    and qa: "questionAnswers w = ds @ ds' @ qs"
  shows "\<exists>w'. getReleasesPerPackage [r1, r2, r3] cats w =
                Inr ([withChangeTypes cats r1 ds, withChangeTypes cats r2 ds',
                      withChangeTypes cats r3 ds'], w')
            \<and> confirmAnswers w' = bs \<and> questionAnswers w' = qs"
proof -
  let ?script = "[map Fresh ds, map Fresh ds', replicate (length ds') Reuse]"
  have l: "length (replicate (length cats) ([] :: string)) = length ds" using len by simp
  have l2: "length ds = length ds'" using len len' by simp
  have a: "length ?script = length [r1, r2, r3]" by simp
  have b: "scriptAllowed (replicate (length cats) []) ?script"
    by (simp add: roundAllowed_fresh [OF l] roundDescriptions_fresh [OF l]
        roundAllowed_fresh [OF l2] roundDescriptions_fresh [OF l2] roundAllowed_reuse [OF ne'])
  from cf len len'
  have cf': "confirmAnswers w = replicate (length ds) False @ replicate (length ds') True @ bs"
    by simp
  have c: "confirmAnswers w = scriptConfirms (replicate (length cats) []) ?script @ bs"
    using cf'
    by (simp add: roundConfirms_first roundDescriptions_fresh [OF l]
        roundConfirms_fresh [OF l2 ne] roundDescriptions_fresh [OF l2] roundConfirms_reuse [OF ne'])
  have d: "questionAnswers w = scriptQuestions ?script @ qs"
    using qa by (simp add: scriptQuestions_def roundQuestions_fresh roundQuestions_reuse)
  have e: "scriptDescriptions (replicate (length cats) []) ?script = [ds, ds', ds']"
    by (simp add: roundDescriptions_fresh [OF l] roundDescriptions_fresh [OF l2]
        roundDescriptions_reuse)
  show ?thesis
    unfolding getReleasesPerPackage_run [OF assms(1,2) a b c d] e
    by simp
qed


text \<open>
  Outside the hypothesis on the titles: for a category titled "toString" nothing has been
  answered yet, and still the inherited member is offered for reuse and, when accepted,
  returned as the description.
\<close>

lemma getDescription_inherited_member:
  "getDescriptionWithPreviousAnswer Map.empty \<lparr>title = ''toString'', text' = ''Conversions''\<rparr>
     (session [] [True] [] [''a description''] []) =
   Inr ((''function toString() { [native code] }'', Map.empty),
        \<lparr>checkboxAnswers = [], confirmAnswers = [], listAnswers = [],
          questionAnswers = [''a description''], editorAnswers = [],
          trace = [AskConfirm (''Do you want to reuse your previous answer for the current package? (''
                                 @ ''function toString() { [native code] }'' @ '')'')]\<rparr>)"
  by (simp add: getDescriptionWithPreviousAnswer_def getProperty_def objectPrototypeMembers_def
      inheritedMemberText_def askConfirm_def emit_def session_def)

text \<open>
  C9. The titles of the categories are pairwise distinct and none of them names a member
  of \<^verbatim>\<open>Object.prototype\<close>.

  One call of \<open>getDescriptionWithPreviousAnswer\<close> (first four conjuncts): when the category
  has a recorded, non-empty answer and the user accepts the offer, the description
  returned is that recorded answer and the cache is unchanged; when the user declines, or
  nothing (or the empty text) is recorded, the category is asked afresh and the cache
  holds the fresh answer for it afterwards; an answer entered for a category and accepted
  at the next call for the same category comes back unchanged.

  The collection over the packages, \<open>getReleasesPerPackage\<close> (fifth conjunct): let the user's
  decisions be given package by package and category by category, reusing only where the
  previous package got a non-empty description for the category, and let the pending
  answers be those the decisions take. Then the function returns one changeset for each
  package, in order, unconfirmed and without summary, whose release carries for each
  category the description the decisions give: on reuse, the description of the previous
  package for that category, character for character; otherwise the fresh answer. The
  trace is the line logged for each package, the offers and the questions.

  Two instances (last two conjuncts). When the first package gets the non-empty answers
  \<open>ds\<close> and every offer for the later packages is accepted, every package carries exactly
  \<open>ds\<close>. With three packages, when every offer for the second is declined and the non-empty
  answers \<open>ds'\<close> are entered, and every offer for the third is accepted, the third carries
  \<open>ds'\<close>: the fresh answers have replaced the recorded ones.
\<close>

theorem previous_answer_reuse:
  assumes "title cat \<notin> set objectPrototypeMembers"
    and "distinct (map title cats)"
    and "\<forall>c\<in>set cats. title c \<notin> set objectPrototypeMembers"
  shows
  "(previousAnswers (title cat) = Some prev \<and> prev \<noteq> [] \<and> confirmAnswers w = True # bs \<longrightarrow>
      getDescriptionWithPreviousAnswer previousAnswers cat w =
        Inr ((prev, previousAnswers),
             w\<lparr>confirmAnswers := bs,
               trace := trace w @
                 [AskConfirm (''Do you want to reuse your previous answer for the current package? (''
                                @ prev @ '')'')]\<rparr>))
   \<and> (previousAnswers (title cat) = Some prev \<and> prev \<noteq> [] \<and> confirmAnswers w = False # bs
        \<and> questionAnswers w = d # qs \<longrightarrow>
      getDescriptionWithPreviousAnswer previousAnswers cat w =
        Inr ((d, previousAnswers(title cat \<mapsto> d)),
             w\<lparr>confirmAnswers := bs, questionAnswers := qs,
               trace := trace w @
                 [AskConfirm (''Do you want to reuse your previous answer for the current package? (''
                                @ prev @ '')''),
                  AskQuestion (''[ '' @ title cat @ '' ]'')]\<rparr>))
   \<and> ((previousAnswers (title cat) = None \<or> previousAnswers (title cat) = Some [])
        \<and> questionAnswers w = d # qs \<longrightarrow>
      getDescriptionWithPreviousAnswer previousAnswers cat w =
        Inr ((d, previousAnswers(title cat \<mapsto> d)),
             w\<lparr>questionAnswers := qs,
               trace := trace w @ [AskQuestion (''[ '' @ title cat @ '' ]'')]\<rparr>))
   \<and> (previousAnswers (title cat) = None \<and> questionAnswers w = d # qs \<and> d \<noteq> []
        \<and> confirmAnswers w = True # bs \<longrightarrow>
      (\<exists>w1 w2.
         getDescriptionWithPreviousAnswer previousAnswers cat w =
           Inr ((d, previousAnswers(title cat \<mapsto> d)), w1)
         \<and> getDescriptionWithPreviousAnswer (previousAnswers(title cat \<mapsto> d)) cat w1 =
           Inr ((d, previousAnswers(title cat \<mapsto> d)), w2)))
   \<and> (length script = length rels \<and> scriptAllowed (replicate (length cats) []) script
        \<and> confirmAnswers w = scriptConfirms (replicate (length cats) []) script @ bs
        \<and> questionAnswers w = scriptQuestions script @ qs \<longrightarrow>
      getReleasesPerPackage rels cats w =
        Inr (map (\<lambda>(rel, ds). withChangeTypes cats rel ds)
               (zip rels (scriptDescriptions (replicate (length cats) []) script)),
             w\<lparr>confirmAnswers := bs, questionAnswers := qs,
               trace := trace w @ scriptEvents cats (replicate (length cats) []) rels script\<rparr>))
   \<and> (length ds = length cats \<and> (\<forall>d\<in>set ds. d \<noteq> [])
        \<and> confirmAnswers w = replicate (length rest * length cats) True @ bs
        \<and> questionAnswers w = ds @ qs \<longrightarrow>
      (\<exists>w'. getReleasesPerPackage (r # rest) cats w =
               Inr (map (\<lambda>rel. withChangeTypes cats rel ds) (r # rest), w')
           \<and> confirmAnswers w' = bs \<and> questionAnswers w' = qs))
   \<and> (length ds = length cats \<and> (\<forall>d\<in>set ds. d \<noteq> [])
        \<and> length ds' = length cats \<and> (\<forall>d\<in>set ds'. d \<noteq> [])
        \<and> confirmAnswers w = replicate (length cats) False @ replicate (length cats) True @ bs
        \<and> questionAnswers w = ds @ ds' @ qs \<longrightarrow>
      (\<exists>w'. getReleasesPerPackage [r1, r2, r3] cats w =
               Inr ([withChangeTypes cats r1 ds, withChangeTypes cats r2 ds',
                     withChangeTypes cats r3 ds'], w')
           \<and> confirmAnswers w' = bs \<and> questionAnswers w' = qs))"
proof -
  note single = getDescriptionWithPreviousAnswer_def getProperty_plain [OF assms(1)]
    setProperty_plain [OF assms(1)] askConfirm_def askQuestion_def emit_def
  have one: "previousAnswers (title cat) = Some prev \<and> prev \<noteq> [] \<and> confirmAnswers w = True # bs \<longrightarrow>
      getDescriptionWithPreviousAnswer previousAnswers cat w =
        Inr ((prev, previousAnswers),
             w\<lparr>confirmAnswers := bs,
               trace := trace w @
                 [AskConfirm (''Do you want to reuse your previous answer for the current package? (''
                                @ prev @ '')'')]\<rparr>)"
    by (auto simp: single)
  have two: "previousAnswers (title cat) = Some prev \<and> prev \<noteq> [] \<and> confirmAnswers w = False # bs
        \<and> questionAnswers w = d # qs \<longrightarrow>
      getDescriptionWithPreviousAnswer previousAnswers cat w =
        Inr ((d, previousAnswers(title cat \<mapsto> d)),
             w\<lparr>confirmAnswers := bs, questionAnswers := qs,
               trace := trace w @
                 [AskConfirm (''Do you want to reuse your previous answer for the current package? (''
                                @ prev @ '')''),
                  AskQuestion (''[ '' @ title cat @ '' ]'')]\<rparr>)"
    by (auto simp: single)
  have three: "(previousAnswers (title cat) = None \<or> previousAnswers (title cat) = Some [])
        \<and> questionAnswers w = d # qs \<longrightarrow>
      getDescriptionWithPreviousAnswer previousAnswers cat w =
        Inr ((d, previousAnswers(title cat \<mapsto> d)),
             w\<lparr>questionAnswers := qs,
               trace := trace w @ [AskQuestion (''[ '' @ title cat @ '' ]'')]\<rparr>)"
    by (auto simp: single)
  have four: "previousAnswers (title cat) = None \<and> questionAnswers w = d # qs \<and> d \<noteq> []
        \<and> confirmAnswers w = True # bs \<longrightarrow>
      (\<exists>w1 w2.
         getDescriptionWithPreviousAnswer previousAnswers cat w =
           Inr ((d, previousAnswers(title cat \<mapsto> d)), w1)
         \<and> getDescriptionWithPreviousAnswer (previousAnswers(title cat \<mapsto> d)) cat w1 =
           Inr ((d, previousAnswers(title cat \<mapsto> d)), w2))"
    by (auto simp: single)
  have five: "length script = length rels \<and> scriptAllowed (replicate (length cats) []) script
        \<and> confirmAnswers w = scriptConfirms (replicate (length cats) []) script @ bs
        \<and> questionAnswers w = scriptQuestions script @ qs \<longrightarrow>
      getReleasesPerPackage rels cats w =
        Inr (map (\<lambda>(rel, ds). withChangeTypes cats rel ds)
               (zip rels (scriptDescriptions (replicate (length cats) []) script)),
             w\<lparr>confirmAnswers := bs, questionAnswers := qs,
               trace := trace w @ scriptEvents cats (replicate (length cats) []) rels script\<rparr>)"
    by (intro impI; elim conjE; rule getReleasesPerPackage_run [OF assms(2,3)]; assumption)
  have six: "length ds = length cats \<and> (\<forall>d\<in>set ds. d \<noteq> [])
        \<and> confirmAnswers w = replicate (length rest * length cats) True @ bs
        \<and> questionAnswers w = ds @ qs \<longrightarrow>
      (\<exists>w'. getReleasesPerPackage (r # rest) cats w =
               Inr (map (\<lambda>rel. withChangeTypes cats rel ds) (r # rest), w')
           \<and> confirmAnswers w' = bs \<and> questionAnswers w' = qs)"
    by (intro impI; elim conjE; rule getReleasesPerPackage_accept_all [OF assms(2,3)]; assumption)
  have seven: "length ds = length cats \<and> (\<forall>d\<in>set ds. d \<noteq> [])
        \<and> length ds' = length cats \<and> (\<forall>d\<in>set ds'. d \<noteq> [])
        \<and> confirmAnswers w = replicate (length cats) False @ replicate (length cats) True @ bs
        \<and> questionAnswers w = ds @ ds' @ qs \<longrightarrow>
      (\<exists>w'. getReleasesPerPackage [r1, r2, r3] cats w =
               Inr ([withChangeTypes cats r1 ds, withChangeTypes cats r2 ds',
                     withChangeTypes cats r3 ds'], w')
           \<and> confirmAnswers w' = bs \<and> questionAnswers w' = qs)"
    by (intro impI; elim conjE; rule getReleasesPerPackage_decline_all [OF assms(2,3)]; assumption)
  from one two three four five six seven show ?thesis by (intro conjI)
qed


theorem previous_answer_reuse_witness:
  "getReleasesPerPackage
     [release ''pkg-a'' ''patch'', release ''pkg-b'' ''minor'', release ''pkg-c'' ''patch'']
     [\<lparr>title = ''Added'', text' = ''New functionality''\<rparr>, \<lparr>title = ''Fixed'', text' = ''Bug fixes''\<rparr>]
     (session [] [True, False, True, True] [] [''new flag'', ''crash'', ''typo''] []) =
   Inr ([\<lparr>Changeset.releases =
           [\<lparr>name = ''pkg-a'', type = ''patch'',
             changeTypes = Some
               [\<lparr>description = ''new flag'',
                  category = \<lparr>title = ''Added'', text' = ''New functionality''\<rparr>\<rparr>,
                \<lparr>description = ''crash'',
                  category = \<lparr>title = ''Fixed'', text' = ''Bug fixes''\<rparr>\<rparr>]\<rparr>],
           summary = [], confirmed = False\<rparr>,
         \<lparr>Changeset.releases =
           [\<lparr>name = ''pkg-b'', type = ''minor'',
             changeTypes = Some
               [\<lparr>description = ''new flag'',
                  category = \<lparr>title = ''Added'', text' = ''New functionality''\<rparr>\<rparr>,
                \<lparr>description = ''typo'',
                  category = \<lparr>title = ''Fixed'', text' = ''Bug fixes''\<rparr>\<rparr>]\<rparr>],
           summary = [], confirmed = False\<rparr>,
         \<lparr>Changeset.releases =
           [\<lparr>name = ''pkg-c'', type = ''patch'',
             changeTypes = Some
               [\<lparr>description = ''new flag'',
                  category = \<lparr>title = ''Added'', text' = ''New functionality''\<rparr>\<rparr>,
                \<lparr>description = ''typo'',
                  category = \<lparr>title = ''Fixed'', text' = ''Bug fixes''\<rparr>\<rparr>]\<rparr>],
           summary = [], confirmed = False\<rparr>],
        \<lparr>checkboxAnswers = [], confirmAnswers = [], listAnswers = [], questionAnswers = [],
          editorAnswers = [],
          trace =
            [Log ''patch : pkg-a'', AskQuestion ''[ Added ]'', AskQuestion ''[ Fixed ]'',
             Log ''minor : pkg-b'',
             AskConfirm ''Do you want to reuse your previous answer for the current package? (new flag)'',
             AskConfirm ''Do you want to reuse your previous answer for the current package? (crash)'',
             AskQuestion ''[ Fixed ]'',
             Log ''patch : pkg-c'',
             AskConfirm ''Do you want to reuse your previous answer for the current package? (new flag)'',
             AskConfirm ''Do you want to reuse your previous answer for the current package? (typo)'']\<rparr>)"
  using previous_answer_reuse
    [where cat = "\<lparr>title = ''Added'', text' = ''New functionality''\<rparr>"
       and cats = "[\<lparr>title = ''Added'', text' = ''New functionality''\<rparr>,
                    \<lparr>title = ''Fixed'', text' = ''Bug fixes''\<rparr>]"
       and rels = "[release ''pkg-a'' ''patch'', release ''pkg-b'' ''minor'', release ''pkg-c'' ''patch'']"
       and script = "[[Fresh ''new flag'', Fresh ''crash''], [Reuse, Fresh ''typo''], [Reuse, Reuse]]"
       and w = "session [] [True, False, True, True] [] [''new flag'', ''crash'', ''typo''] []"
       and bs = "[]" and qs = "[]"]
  by (simp add: objectPrototypeMembers_def session_def release_def withChangeTypes_def
      roundDescriptions_def roundAllowed_def roundConfirms_def roundQuestions_def roundEvents_def
      scriptQuestions_def describe_def allowed_def confirmsFor_def questionsFor_def eventsFor_def)

section \<open>The collector when it is not active\<close>

text \<open>
  C10. The collector is inactive when the configuration flag is off (then
  \<open>setChangeTypeList\<close> asks nothing and leaves the fresh object as it is) or when the user
  chooses no category. On an inactive collector \<open>getFinalChangesetList\<close> returns
  \<^verbatim>\<open>undefined\<close> (\<open>None\<close>), and \<open>setReleases\<close>, \<open>setChangesetList\<close> and \<open>setSummaries\<close> return the
  object and the world unchanged, without an error.
\<close>

theorem collector_inactive:
  "(\<not> shouldAskForChangeTypes cfg \<longrightarrow>
      setChangeTypeList allChangeTypes (newChangesetsWithChangeTypes cfg) w =
        Inr (newChangesetsWithChangeTypes cfg, w)
      \<and> \<not> isWithChangeTypes (newChangesetsWithChangeTypes cfg))
   \<and> (shouldAskForChangeTypes cfg \<and> checkboxAnswers w = [] # cbs \<longrightarrow>
        (\<exists>this' w'. setChangeTypeList allChangeTypes (newChangesetsWithChangeTypes cfg) w = Inr (this', w')
           \<and> \<not> isWithChangeTypes this'))
   \<and> (\<not> isWithChangeTypes this \<longrightarrow>
        getFinalChangesetList this w = Inr (None, w)
        \<and> setReleases newReleases this w = Inr (this, w)
        \<and> setChangesetList this w = Inr (this, w)
        \<and> setSummaries this w = Inr (this, w))"
  by (simp add: setChangeTypeList_def newChangesetsWithChangeTypes_def getChangeTypeList_def
      askCheckboxPlus_def getFinalChangesetList_def setReleases_def setChangesetList_def
      setSummaries_def)

theorem collector_inactive_witness:
  "getFinalChangesetList
     (newChangesetsWithChangeTypes \<lparr>shouldAskForChangeTypes = False, alwaysOpenEditor = False\<rparr>)
     (session [] [] [] [] []) = Inr (None, session [] [] [] [] [])
   \<and> setChangesetList
     (newChangesetsWithChangeTypes \<lparr>shouldAskForChangeTypes = False, alwaysOpenEditor = False\<rparr>)
     (session [] [] [] [] []) =
     Inr (newChangesetsWithChangeTypes \<lparr>shouldAskForChangeTypes = False, alwaysOpenEditor = False\<rparr>,
          session [] [] [] [] [])"
  using collector_inactive
    [where cfg = "\<lparr>shouldAskForChangeTypes = False, alwaysOpenEditor = False\<rparr>"
       and this = "newChangesetsWithChangeTypes \<lparr>shouldAskForChangeTypes = False, alwaysOpenEditor = False\<rparr>"
       and w = "session [] [] [] [] []"]
  by simp

section \<open>A declined first major release in multi-package mode\<close>

lemma majorAccepted_subset: "set (majorAccepted semver_lt m ps answers) \<subseteq> set ps"
  by (induction ps arbitrary: answers) (auto split: option.splits list.splits if_splits)

lemma majorDeclined_subset: "set (majorDeclined semver_lt m ps answers) \<subseteq> set ps"
  by (induction ps arbitrary: answers) (auto split: option.splits list.splits if_splits)

lemma declined_not_accepted:
  "distinct ps \<Longrightarrow> p \<in> set (majorDeclined semver_lt m ps answers) \<Longrightarrow>
   p \<notin> set (majorAccepted semver_lt m ps answers)"
proof (induction ps arbitrary: answers)
  case Nil
  then show ?case by simp
next
  case (Cons q ps)
  from Cons.prems(1) have q: "q \<notin> set ps" and d: "distinct ps" by simp_all
  from q majorAccepted_subset [of semver_lt m ps] majorDeclined_subset [of semver_lt m ps]
  have nq: "\<And>bs. q \<notin> set (majorAccepted semver_lt m ps bs)"
    "\<And>bs. q \<notin> set (majorDeclined semver_lt m ps bs)"
    by blast+
  show ?case
  proof (cases "m q")
    case None
    then show ?thesis by simp
  next
    case (Some pkgJson)
    show ?thesis
    proof (cases "semver_lt (version pkgJson) ''1.0.0''")
      case None
      with Some show ?thesis by simp
    next
      case below: (Some below)
      show ?thesis
      proof (cases below)
        case False
        with Some below Cons.prems(2) Cons.IH [OF d] nq show ?thesis by auto
      next
        case True
        show ?thesis
        proof (cases answers)
          case Nil
          with Some below True show ?thesis by simp
        next
          case answers: (Cons b bs)
          with Some below True Cons.prems(2) Cons.IH [OF d, of bs] nq show ?thesis
            by (cases b) auto
        qed
      qed
    qed
  qed
qed

lemma releasePkgs_other:
  "bump \<noteq> ''major'' \<Longrightarrow>
   releasePkgs semver_lt bump m pkgs (left, rels) w =
     Inr ((filter (\<lambda>x. x \<notin> set pkgs) left, rels @ map (\<lambda>p. release p bump) pkgs), w)"
proof (induction pkgs arbitrary: left rels)
  case Nil
  then show ?case by simp
next
  case (Cons p pkgs)
  have "filter (\<lambda>x. x \<notin> set pkgs) (removeAll p left) = filter (\<lambda>x. x \<noteq> p \<and> x \<notin> set pkgs) left"
    by (induction left) auto
  with Cons show ?case
    by (simp add: setDelete_def release_def)
qed

lemma confirmMajorRelease_cases:
  assumes "confirmMajorRelease semver_lt pkgJson w = Inr (b, w')"
  shows "(semver_lt (version pkgJson) ''1.0.0'' = Some False \<and> b \<and> w' = w)
       \<or> (semver_lt (version pkgJson) ''1.0.0'' = Some True
            \<and> (\<exists>bs. confirmAnswers w = b # bs \<and> confirmAnswers w' = bs))"
proof (cases "semver_lt (version pkgJson) ''1.0.0''")
  case None
  with assms show ?thesis by (simp add: confirmMajorRelease_def)
next
  case (Some below)
  show ?thesis
  proof (cases below)
    case False
    with Some assms show ?thesis by (auto simp: confirmMajorRelease_def)
  next
    case True
    with Some assms show ?thesis
      by (cases "confirmAnswers w") (auto simp: confirmMajorRelease_def askConfirm_def emit_def)
  qed
qed

lemma releasePkgs_major:
  "releasePkgs semver_lt ''major'' m pkgs (left, rels) w = Inr ((left', rels'), w') \<Longrightarrow>
     left' = filter (\<lambda>x. x \<notin> set (majorAccepted semver_lt m pkgs (confirmAnswers w))) left
   \<and> rels' = rels @ map (\<lambda>p. release p ''major'') (majorAccepted semver_lt m pkgs (confirmAnswers w))"
proof (induction pkgs arbitrary: left rels w)
  case Nil
  then show ?case by simp
next
  case (Cons p pkgs)
  from Cons.prems obtain pkgJson where pj: "m p = Some pkgJson"
    by (auto split: option.splits)
  from Cons.prems pj obtain b w1 where
    c: "confirmMajorRelease semver_lt pkgJson w = Inr (b, w1)"
    by (auto split: sum.splits)
  have rm: "\<And>ys. filter (\<lambda>x. x \<notin> set ys) (removeAll p left) = filter (\<lambda>x. x \<noteq> p \<and> x \<notin> set ys) left"
    by (induction left) auto
  show ?case
  proof (cases b)
    case True
    with Cons.prems pj c
    have r: "releasePkgs semver_lt ''major'' m pkgs
               (setDelete p left, rels @ [\<lparr>name = p, type = ''major'', changeTypes = None\<rparr>]) w1
             = Inr ((left', rels'), w')"
      by simp
    note ih = Cons.IH [OF r]
    from confirmMajorRelease_cases [OF c] show ?thesis
    proof
      assume "semver_lt (version pkgJson) ''1.0.0'' = Some False \<and> b \<and> w1 = w"
      with ih pj show ?thesis by (simp add: setDelete_def release_def rm)
    next
      assume "semver_lt (version pkgJson) ''1.0.0'' = Some True
            \<and> (\<exists>bs. confirmAnswers w = b # bs \<and> confirmAnswers w1 = bs)"
      with ih pj True show ?thesis by (auto simp: setDelete_def release_def rm)
    qed
  next
    case False
    with Cons.prems pj c
    have r: "releasePkgs semver_lt ''major'' m pkgs (left, rels) w1 = Inr ((left', rels'), w')"
      by simp
    note ih = Cons.IH [OF r]
    from confirmMajorRelease_cases [OF c] False
    have "semver_lt (version pkgJson) ''1.0.0'' = Some True
            \<and> (\<exists>bs. confirmAnswers w = b # bs \<and> confirmAnswers w1 = bs)"
      by blast
    with ih pj False show ?thesis by auto
  qed
qed


lemma confirmMajorRelease_trace:
  "confirmMajorRelease semver_lt pkgJson w = Inr (b, w') \<Longrightarrow> \<exists>evs. trace w' = trace w @ evs"
  by (auto simp: confirmMajorRelease_def askConfirm_def emit_def
      split: option.splits bool.splits list.splits)

lemma releasePkgs_trace:
  "releasePkgs semver_lt bump m pkgs st w = Inr (st', w') \<Longrightarrow> \<exists>evs. trace w' = trace w @ evs"
proof (induction pkgs arbitrary: st w)
  case Nil
  then show ?case by simp
next
  case (Cons p pkgs)
  show ?case
  proof (cases "bump = ''major''")
    case False
    with Cons.prems Cons.IH show ?thesis by simp
  next
    case True
    from Cons.prems True obtain pkgJson where pj: "m p = Some pkgJson"
      by (auto split: option.splits)
    from Cons.prems True pj obtain b w1 where
      c: "confirmMajorRelease semver_lt pkgJson w = Inr (b, w1)"
      by (auto split: sum.splits)
    from Cons.prems True pj c obtain st1 where
      "releasePkgs semver_lt bump m pkgs st1 w1 = Inr (st', w')"
      by (cases b) auto
    from Cons.IH [OF this] confirmMajorRelease_trace [OF c] show ?thesis by auto
  qed
qed

lemma length_bumpTypes: "length bumpTypes = 4"
  by (simp add: bumpTypes_def)

lemma set_foldl_setAdd: "set (foldl setAdd acc xs) = set acc \<union> set xs"
  by (induction xs arbitrary: acc) (auto simp: setAdd_def)

lemma set_newSet: "set (newSet xs) = set xs"
  by (simp add: newSet_def set_foldl_setAdd)

lemma those_known:
  "\<forall>q\<in>set ps. m q \<noteq> None \<Longrightarrow> those (map m ps) \<noteq> None"
  by (induction ps) (auto split: option.splits)

lemma choosePkgsForBumpType_returns:
  assumes "\<forall>q\<in>set pkgs. m q \<noteq> None" and "checkboxAnswers w = chosen # cbs"
  shows "choosePkgsForBumpType ttl pkgs m w =
           Inr (filter (\<lambda>x. x \<noteq> ''all packages'') chosen,
                w\<lparr>checkboxAnswers := cbs,
                  trace := trace w @ [AskCheckboxPlus ttl [(''all packages'', pkgs)]]\<rparr>)"
proof -
  from those_known [OF assms(1)] obtain js where "those (map m pkgs) = Some js" by auto
  with assms(2) show ?thesis
    by (simp add: choosePkgsForBumpType_def askCheckboxPlus_def emit_def)
qed

lemma logPackages_returns:
  "\<forall>q\<in>set pkgs. m q \<noteq> None \<Longrightarrow>
   \<exists>w'. logPackages pkgs m w = Inr ((), w') \<and> (\<exists>evs. trace w' = trace w @ evs)"
proof (induction pkgs arbitrary: w)
  case Nil
  then show ?case by simp
next
  case (Cons p pkgs)
  from Cons.prems obtain pkgJson where pj: "m p = Some pkgJson" by auto
  from Cons.prems have "\<forall>q\<in>set pkgs. m q \<noteq> None" by simp
  from Cons.IH [OF this, of "emit (Log (formatPkgNameAndVersion p (version pkgJson))) w"] pj
  show ?case by (auto simp: emit_def)
qed

lemma logRestWillBeBumped_returns:
  "\<forall>q\<in>set pkgs. m q \<noteq> None \<Longrightarrow>
   \<exists>w'. logRestWillBeBumped bump pkgs m w = Inr ((), w') \<and> (\<exists>evs. trace w' = trace w @ evs)"
  using logPackages_returns [of pkgs m "emit (Log (''The following packages will be '' @ bump @ '' bumped:'')) w"]
  by (auto simp: logRestWillBeBumped_def emit_def)

lemma releasePkgs_major_returns:
  "\<forall>q\<in>set pkgs. \<exists>pkgJson below. m q = Some pkgJson
                      \<and> semver_lt (version pkgJson) ''1.0.0'' = Some below \<Longrightarrow>
   length (firstMajors semver_lt m pkgs) \<le> length (confirmAnswers w) \<Longrightarrow>
   \<exists>st' w'. releasePkgs semver_lt ''major'' m pkgs st w = Inr (st', w')
            \<and> checkboxAnswers w' = checkboxAnswers w"
proof (induction pkgs arbitrary: st w)
  case Nil
  then show ?case by simp
next
  case (Cons p pkgs)
  from Cons.prems(1) obtain pkgJson below where pj: "m p = Some pkgJson"
    and lt: "semver_lt (version pkgJson) ''1.0.0'' = Some below" by auto
  from Cons.prems(1) have known: "\<forall>q\<in>set pkgs. \<exists>pkgJson below. m q = Some pkgJson
                      \<and> semver_lt (version pkgJson) ''1.0.0'' = Some below" by simp
  show ?case
  proof (cases below)
    case False
    with lt have c: "confirmMajorRelease semver_lt pkgJson w = Inr (True, w)"
      by (simp add: confirmMajorRelease_def)
    from Cons.prems(2) pj lt False
    have "length (firstMajors semver_lt m pkgs) \<le> length (confirmAnswers w)"
      by (simp add: firstMajors_def)
    from Cons.IH [OF known this] pj c show ?thesis by simp
  next
    case True
    with Cons.prems(2) pj lt obtain b bs where cf: "confirmAnswers w = b # bs"
      and len: "length (firstMajors semver_lt m pkgs) \<le> length bs"
      by (cases "confirmAnswers w") (auto simp: firstMajors_def)
    let ?w1 = "w\<lparr>confirmAnswers := bs,
                 trace := trace w @
                   [Log (''WARNING: Releasing a major version for '' @ PackageJSON.name pkgJson
                             @ '' will be its first major release.''),
                    Log (''If you are unsure if this is correct, contact the package's maintainers ''
                          @ ''before committing this changeset.''),
                    AskConfirm (''Are you sure you want to release the first major version of ''
                                  @ PackageJSON.name pkgJson @ ''?'')]\<rparr>"
    from lt True cf have c: "confirmMajorRelease semver_lt pkgJson w = Inr (b, ?w1)"
      by (simp add: confirmMajorRelease_def askConfirm_def emit_def)
    from len have l: "length (firstMajors semver_lt m pkgs) \<le> length (confirmAnswers ?w1)" by simp
    from Cons.IH [OF known l] pj c show ?thesis by (cases b) simp_all
  qed
qed


lemma releasePkgs_major_run:
  assumes "\<forall>q\<in>set pkgs. \<exists>pkgJson below. m q = Some pkgJson
                      \<and> semver_lt (version pkgJson) ''1.0.0'' = Some below"
    and "length (firstMajors semver_lt m pkgs) \<le> length (confirmAnswers w)"
  shows "\<exists>w'. releasePkgs semver_lt ''major'' m pkgs (left, rels) w =
                Inr ((filter (\<lambda>x. x \<notin> set (majorAccepted semver_lt m pkgs (confirmAnswers w))) left,
                      rels @ map (\<lambda>p. release p ''major'')
                               (majorAccepted semver_lt m pkgs (confirmAnswers w))), w')
            \<and> checkboxAnswers w' = checkboxAnswers w
            \<and> (\<exists>evs. trace w' = trace w @ evs)"
proof -
  from releasePkgs_major_returns [OF assms, of "(left, rels)"] obtain st' w' where
    r: "releasePkgs semver_lt ''major'' m pkgs (left, rels) w = Inr (st', w')"
    and c: "checkboxAnswers w' = checkboxAnswers w"
    by blast
  obtain left' rels' where st': "st' = (left', rels')" by (cases st')
  from releasePkgs_major [OF r [unfolded st']] releasePkgs_trace [OF r] r c st'
  show ?thesis by simp
qed

lemma bumpLoop_step:
  assumes "left \<noteq> []" and "i \<noteq> 3"
    and "choosePkgsForBumpType (getBumpTypeTitle b) left m w = Inr (pk, w1)"
    and "releasePkgs semver_lt b m pk (left, rels) w1 = Inr (st', w2)"
  shows "bumpLoop semver_lt m i (b # bs) (left, rels) w = bumpLoop semver_lt m (Suc i) bs st' w2"
  using assms by (simp add: length_bumpTypes)

lemma bumpLoop_last:
  assumes "left \<noteq> []" and "i = 3"
    and "logRestWillBeBumped b left m w = Inr ((), w1)"
    and "releasePkgs semver_lt b m left (left, rels) w1 = Inr (st', w2)"
  shows "bumpLoop semver_lt m i [b] (left, rels) w = Inr (st', w2)"
  using assms by (simp add: length_bumpTypes)

lemma bumpLoop_tail_run:
  assumes known: "\<forall>q\<in>set left1. m q \<noteq> None"
    and cb: "checkboxAnswers w = c2 # c3 # cbs"
    and p2: "p2 = filter (\<lambda>x. x \<noteq> ''all packages'') c2"
    and p3: "p3 = filter (\<lambda>x. x \<noteq> ''all packages'') c3"
    and left2: "left2 = filter (\<lambda>x. x \<notin> set p2) left1"
    and left3: "left3 = filter (\<lambda>x. x \<notin> set p3) left2"
    and sub2: "set p2 \<subseteq> set left1"
    and sub3: "set p3 \<subseteq> set left2"
  shows "\<exists>w'. bumpLoop semver_lt m (Suc 0) [''minor'', ''patch'', ''none''] (left1, rels1) w =
                Inr (([], rels1 @ map (\<lambda>q. release q ''minor'') p2
                            @ map (\<lambda>q. release q ''patch'') p3
                            @ map (\<lambda>q. release q ''none'') left3), w')
            \<and> (left1 \<noteq> [] \<longrightarrow>
                 (\<exists>evs. trace w' = trace w
                     @ AskCheckboxPlus (getBumpTypeTitle ''minor'') [(''all packages'', left1)] # evs))"
proof (cases "left1 = []")
  case True
  with sub2 left2 have "p2 = []" "left2 = []" by simp_all
  with sub3 left3 have "p3 = []" "left3 = []" by simp_all
  with True \<open>p2 = []\<close> show ?thesis by simp
next
  case ne1: False
  define wA where "wA = w\<lparr>checkboxAnswers := c3 # cbs,
                trace := trace w @ [AskCheckboxPlus (getBumpTypeTitle ''minor'') [(''all packages'', left1)]]\<rparr>"
  define rels2 where "rels2 = rels1 @ map (\<lambda>q. release q ''minor'') p2"
  have c: "choosePkgsForBumpType (getBumpTypeTitle ''minor'') left1 m w = Inr (p2, wA)"
    unfolding p2 wA_def by (rule choosePkgsForBumpType_returns [OF known cb])
  have r: "releasePkgs semver_lt ''minor'' m p2 (left1, rels1) wA = Inr ((left2, rels2), wA)"
    unfolding left2 rels2_def by (rule releasePkgs_other) simp
  have step1: "bumpLoop semver_lt m (Suc 0) [''minor'', ''patch'', ''none''] (left1, rels1) w =
          bumpLoop semver_lt m (Suc (Suc 0)) [''patch'', ''none''] (left2, rels2) wA"
    by (rule bumpLoop_step [OF ne1 _ c r]) simp
  have trA: "trace wA = trace w
       @ [AskCheckboxPlus (getBumpTypeTitle ''minor'') [(''all packages'', left1)]]"
    by (simp add: wA_def)
  show ?thesis
  proof (cases "left2 = []")
    case True
    with sub3 left3 have "p3 = []" "left3 = []" by simp_all
    with True ne1 step1 trA show ?thesis by (simp add: rels2_def)
  next
    case ne2: False
    from known left2 have known2: "\<forall>q\<in>set left2. m q \<noteq> None" by simp
    define wB where "wB = wA\<lparr>checkboxAnswers := cbs,
                trace := trace wA @ [AskCheckboxPlus (getBumpTypeTitle ''patch'') [(''all packages'', left2)]]\<rparr>"
    define rels3 where "rels3 = rels2 @ map (\<lambda>q. release q ''patch'') p3"
    have cbA: "checkboxAnswers wA = c3 # cbs" by (simp add: wA_def)
    have c2: "choosePkgsForBumpType (getBumpTypeTitle ''patch'') left2 m wA = Inr (p3, wB)"
      unfolding p3 wB_def by (rule choosePkgsForBumpType_returns [OF known2 cbA])
    have r2: "releasePkgs semver_lt ''patch'' m p3 (left2, rels2) wB = Inr ((left3, rels3), wB)"
      unfolding left3 rels3_def by (rule releasePkgs_other) simp
    have step2: "bumpLoop semver_lt m (Suc (Suc 0)) [''patch'', ''none''] (left2, rels2) wA =
          bumpLoop semver_lt m (Suc (Suc (Suc 0))) [''none''] (left3, rels3) wB"
      by (rule bumpLoop_step [OF ne2 _ c2 r2]) simp
    have trB: "trace wB = trace w
       @ AskCheckboxPlus (getBumpTypeTitle ''minor'') [(''all packages'', left1)]
       # [AskCheckboxPlus (getBumpTypeTitle ''patch'') [(''all packages'', left2)]]"
      by (simp add: wB_def trA)
    show ?thesis
    proof (cases "left3 = []")
      case True
      then have "bumpLoop semver_lt m (Suc (Suc (Suc 0))) [''none''] (left3, rels3) wB
                   = Inr (([], rels3), wB)"
        by simp
      with True step1 step2 trB show ?thesis
        by (simp add: rels3_def rels2_def)
    next
      case ne3: False
      from known2 left3 have known3: "\<forall>q\<in>set left3. m q \<noteq> None" by simp
      from logRestWillBeBumped_returns [OF known3, of "''none''" wB] obtain wC evs where
        l: "logRestWillBeBumped ''none'' left3 m wB = Inr ((), wC)"
        and tr: "trace wC = trace wB @ evs"
        by blast
      have r3: "releasePkgs semver_lt ''none'' m left3 (left3, rels3) wC =
             Inr ((filter (\<lambda>x. x \<notin> set left3) left3,
                   rels3 @ map (\<lambda>q. release q ''none'') left3), wC)"
        by (rule releasePkgs_other) simp
      have "bumpLoop semver_lt m (Suc (Suc (Suc 0))) [''none''] (left3, rels3) wB =
          Inr ((filter (\<lambda>x. x \<notin> set left3) left3,
                   rels3 @ map (\<lambda>q. release q ''none'') left3), wC)"
        by (rule bumpLoop_last [OF ne3 _ l r3]) simp
      with step1 step2 tr trB show ?thesis
        by (simp add: rels3_def rels2_def)
    qed
  qed
qed

lemma bumpLoop_run:
  assumes known: "\<forall>q\<in>set pool. \<exists>pkgJson below. m q = Some pkgJson
                      \<and> semver_lt (version pkgJson) ''1.0.0'' = Some below"
    and cb: "checkboxAnswers w = c1 # c2 # c3 # cbs"
    and p1: "p1 = filter (\<lambda>x. x \<noteq> ''all packages'') c1"
    and p2: "p2 = filter (\<lambda>x. x \<noteq> ''all packages'') c2"
    and p3: "p3 = filter (\<lambda>x. x \<noteq> ''all packages'') c3"
    and acc: "acc = majorAccepted semver_lt m p1 (confirmAnswers w)"
    and left1: "left1 = filter (\<lambda>x. x \<notin> set acc) pool"
    and left2: "left2 = filter (\<lambda>x. x \<notin> set p2) left1"
    and left3: "left3 = filter (\<lambda>x. x \<notin> set p3) left2"
    and sub1: "set p1 \<subseteq> set pool"
    and sub2: "set p2 \<subseteq> set left1"
    and sub3: "set p3 \<subseteq> set left2"
    and enough: "length (firstMajors semver_lt m p1) \<le> length (confirmAnswers w)"
  shows "\<exists>w'. bumpLoop semver_lt m 0 bumpTypes (pool, []) w =
                Inr (([], map (\<lambda>q. release q ''major'') acc
                            @ map (\<lambda>q. release q ''minor'') p2
                            @ map (\<lambda>q. release q ''patch'') p3
                            @ map (\<lambda>q. release q ''none'') left3), w')
            \<and> (left1 \<noteq> [] \<longrightarrow>
                 (\<exists>evs1 evs2. trace w' = trace w
                     @ AskCheckboxPlus (getBumpTypeTitle ''major'') [(''all packages'', pool)] # evs1
                     @ AskCheckboxPlus (getBumpTypeTitle ''minor'') [(''all packages'', left1)] # evs2))"
proof (cases "pool = []")
  case True
  with sub1 have "p1 = []" by simp
  with acc have "acc = []" by simp
  with True left1 have l1: "left1 = []" by simp
  with sub2 left2 have "p2 = []" "left2 = []" by simp_all
  with sub3 left3 have "p3 = []" "left3 = []" by simp_all
  with True \<open>acc = []\<close> \<open>p2 = []\<close> l1 show ?thesis by (simp add: bumpTypes_def)
next
  case ne: False
  from known have known0: "\<forall>q\<in>set pool. m q \<noteq> None" by auto
  let ?w1 = "w\<lparr>checkboxAnswers := c2 # c3 # cbs,
                trace := trace w @ [AskCheckboxPlus (getBumpTypeTitle ''major'') [(''all packages'', pool)]]\<rparr>"
  have c: "choosePkgsForBumpType (getBumpTypeTitle ''major'') pool m w = Inr (p1, ?w1)"
    unfolding p1 by (rule choosePkgsForBumpType_returns [OF known0 cb])
  from known sub1 have known1: "\<forall>q\<in>set p1. \<exists>pkgJson below. m q = Some pkgJson
                      \<and> semver_lt (version pkgJson) ''1.0.0'' = Some below" by blast
  from enough have enough1: "length (firstMajors semver_lt m p1) \<le> length (confirmAnswers ?w1)"
    by simp
  from releasePkgs_major_run [OF known1 enough1, of pool "[]"] acc left1
  obtain w2 evs1 where
    r: "releasePkgs semver_lt ''major'' m p1 (pool, []) ?w1 =
          Inr ((left1, map (\<lambda>p. release p ''major'') acc), w2)"
    and cb2: "checkboxAnswers w2 = c2 # c3 # cbs"
    and tr2: "trace w2 = trace ?w1 @ evs1"
    by auto
  have "bumpLoop semver_lt m 0 (''major'' # [''minor'', ''patch'', ''none'']) (pool, []) w =
          bumpLoop semver_lt m (Suc 0) [''minor'', ''patch'', ''none'']
            (left1, map (\<lambda>p. release p ''major'') acc) w2"
    by (rule bumpLoop_step [OF ne _ c r]) simp
  then have step: "bumpLoop semver_lt m 0 bumpTypes (pool, []) w =
          bumpLoop semver_lt m (Suc 0) [''minor'', ''patch'', ''none'']
            (left1, map (\<lambda>p. release p ''major'') acc) w2"
    by (simp only: bumpTypes_def)
  from known0 left1 have knownl: "\<forall>q\<in>set left1. m q \<noteq> None" by simp
  from bumpLoop_tail_run [OF knownl cb2 p2 p3 left2 left3 sub2 sub3,
      of semver_lt "map (\<lambda>p. release p ''major'') acc"]
  obtain w' where
    t: "bumpLoop semver_lt m (Suc 0) [''minor'', ''patch'', ''none'']
            (left1, map (\<lambda>p. release p ''major'') acc) w2 =
          Inr (([], map (\<lambda>p. release p ''major'') acc @ map (\<lambda>q. release q ''minor'') p2
                            @ map (\<lambda>q. release q ''patch'') p3
                            @ map (\<lambda>q. release q ''none'') left3), w')"
    and tr: "left1 \<noteq> [] \<longrightarrow>
                 (\<exists>evs. trace w' = trace w2
                     @ AskCheckboxPlus (getBumpTypeTitle ''minor'') [(''all packages'', left1)] # evs)"
    by blast
  from tr tr2 have "left1 \<noteq> [] \<longrightarrow>
                 (\<exists>evs1 evs2. trace w' = trace w
                     @ AskCheckboxPlus (getBumpTypeTitle ''major'') [(''all packages'', pool)] # evs1
                     @ AskCheckboxPlus (getBumpTypeTitle ''minor'') [(''all packages'', left1)] # evs2)"
    by auto
  with step t show ?thesis by simp
qed


text \<open>
  C6. In the multi-package branch of \<open>createChangeset\<close>, let \<open>sel\<close> be the packages to
  release, all of them known with a version that \<open>semver_lt\<close> can compare, and let the answers
  to the questions for the major, minor and patch bumps be pending, each naming only
  packages it was offered (\<open>p1\<close>, \<open>p2\<close>, \<open>p3\<close> are these answers without the label
  "all packages", and \<open>p1\<close> names each package once), with one confirmation answer pending for
  each first major release. \<open>acc\<close> are the packages that stay at major, \<open>left1\<close>, \<open>left2\<close>,
  \<open>left3\<close> the packages left to classify after the major, minor and patch steps.

  Then the branch returns, and the releases are exactly: the accepted packages at major,
  then \<open>p2\<close> at minor, \<open>p3\<close> at patch, and what is left at none (the forced final bucket).
  When a package is left after the major step, the question for the minor bump follows
  the one for the major bump and offers exactly \<open>left1\<close>.

  Every package whose first-major confirmation is declined is in \<open>left1\<close>, so it is offered
  again; no release of it is major, and it has a release at minor, patch or none. Every
  accepted package has left the set, has its major release in the result, and no release
  of it in the result is anything else.
\<close>

theorem declined_first_major_stays_in_pool:
  assumes g: "getPackagesToRelease changedPackages allPackages w0 = Inr (sel, w)"
    and known: "\<forall>q\<in>set sel. \<exists>pkgJson below. newMap allPackages q = Some pkgJson
                      \<and> semver_lt (version pkgJson) ''1.0.0'' = Some below"
    and cb: "checkboxAnswers w = c1 # c2 # c3 # cbs"
    and p1: "p1 = filter (\<lambda>x. x \<noteq> ''all packages'') c1"
    and p2: "p2 = filter (\<lambda>x. x \<noteq> ''all packages'') c2"
    and p3: "p3 = filter (\<lambda>x. x \<noteq> ''all packages'') c3"
    and acc: "acc = majorAccepted semver_lt (newMap allPackages) p1 (confirmAnswers w)"
    and left1: "left1 = filter (\<lambda>x. x \<notin> set acc) (newSet sel)"
    and left2: "left2 = filter (\<lambda>x. x \<notin> set p2) left1"
    and left3: "left3 = filter (\<lambda>x. x \<notin> set p3) left2"
    and rels: "rels = map (\<lambda>q. release q ''major'') acc @ map (\<lambda>q. release q ''minor'') p2
                        @ map (\<lambda>q. release q ''patch'') p3 @ map (\<lambda>q. release q ''none'') left3"
    and sub1: "set p1 \<subseteq> set sel" and dist: "distinct p1"
    and sub2: "set p2 \<subseteq> set left1"
    and sub3: "set p3 \<subseteq> set left2"
    and enough: "length (firstMajors semver_lt (newMap allPackages) p1) \<le> length (confirmAnswers w)"
  shows "(\<exists>w'. multiPackageReleases semver_lt changedPackages allPackages w0 = Inr (rels, w')
            \<and> (left1 \<noteq> [] \<longrightarrow>
                 (\<exists>evs1 evs2. trace w' = trace w
                     @ AskCheckboxPlus (getBumpTypeTitle ''major'') [(''all packages'', newSet sel)] # evs1
                     @ AskCheckboxPlus (getBumpTypeTitle ''minor'') [(''all packages'', left1)] # evs2)))
       \<and> (\<forall>p\<in>set (majorDeclined semver_lt (newMap allPackages) p1 (confirmAnswers w)).
             p \<in> set left1
           \<and> (\<forall>r\<in>set rels. name r = p \<longrightarrow> type r \<noteq> ''major'')
           \<and> (\<exists>t\<in>{''minor'', ''patch'', ''none''}. release p t \<in> set rels))
       \<and> (\<forall>q\<in>set acc. q \<notin> set left1 \<and> release q ''major'' \<in> set rels
           \<and> (\<forall>r\<in>set rels. name r = q \<longrightarrow> r = release q ''major''))"
proof -
  from sub1 have sub1': "set p1 \<subseteq> set (newSet sel)" by (simp add: set_newSet)
  from known have known': "\<forall>q\<in>set (newSet sel). \<exists>pkgJson below. newMap allPackages q = Some pkgJson
                      \<and> semver_lt (version pkgJson) ''1.0.0'' = Some below"
    by (simp add: set_newSet)
  from bumpLoop_run [OF known' cb p1 p2 p3 acc left1 left2 left3 sub1' sub2 sub3 enough]
  obtain w' where
    b: "bumpLoop semver_lt (newMap allPackages) 0 bumpTypes (newSet sel, []) w = Inr (([], rels), w')"
    and tr: "left1 \<noteq> [] \<longrightarrow>
                 (\<exists>evs1 evs2. trace w' = trace w
                     @ AskCheckboxPlus (getBumpTypeTitle ''major'') [(''all packages'', newSet sel)] # evs1
                     @ AskCheckboxPlus (getBumpTypeTitle ''minor'') [(''all packages'', left1)] # evs2)"
    unfolding rels by blast
  have "multiPackageReleases semver_lt changedPackages allPackages w0 = Inr (rels, w')"
    by (simp add: multiPackageReleases_def g b)
  with tr have run: "\<exists>w'. multiPackageReleases semver_lt changedPackages allPackages w0 = Inr (rels, w')
            \<and> (left1 \<noteq> [] \<longrightarrow>
                 (\<exists>evs1 evs2. trace w' = trace w
                     @ AskCheckboxPlus (getBumpTypeTitle ''major'') [(''all packages'', newSet sel)] # evs1
                     @ AskCheckboxPlus (getBumpTypeTitle ''minor'') [(''all packages'', left1)] # evs2))"
    by blast
  have declined: "\<forall>p\<in>set (majorDeclined semver_lt (newMap allPackages) p1 (confirmAnswers w)).
             p \<in> set left1
           \<and> (\<forall>r\<in>set rels. name r = p \<longrightarrow> type r \<noteq> ''major'')
           \<and> (\<exists>t\<in>{''minor'', ''patch'', ''none''}. release p t \<in> set rels)"
  proof
    fix p assume d: "p \<in> set (majorDeclined semver_lt (newMap allPackages) p1 (confirmAnswers w))"
    from declined_not_accepted [OF dist d] acc have na: "p \<notin> set acc" by simp
    from d majorDeclined_subset [of semver_lt "newMap allPackages" p1 "confirmAnswers w"] sub1
    have "p \<in> set sel" by blast
    with na left1 have l1: "p \<in> set left1" by (simp add: set_newSet)
    from na have one: "\<forall>r\<in>set rels. name r = p \<longrightarrow> type r \<noteq> ''major''"
      unfolding rels by (auto simp: release_def)
    from l1 left2 left3 have "p \<in> set p2 \<or> p \<in> set p3 \<or> p \<in> set left3" by auto
    then have "\<exists>t\<in>{''minor'', ''patch'', ''none''}. release p t \<in> set rels"
      unfolding rels by auto
    with l1 one show "p \<in> set left1
           \<and> (\<forall>r\<in>set rels. name r = p \<longrightarrow> type r \<noteq> ''major'')
           \<and> (\<exists>t\<in>{''minor'', ''patch'', ''none''}. release p t \<in> set rels)"
      by blast
  qed
  have accepted: "\<forall>q\<in>set acc. q \<notin> set left1 \<and> release q ''major'' \<in> set rels
           \<and> (\<forall>r\<in>set rels. name r = q \<longrightarrow> r = release q ''major'')"
  proof
    fix q assume q: "q \<in> set acc"
    with left1 have l1: "q \<notin> set left1" by simp
    from q have m: "release q ''major'' \<in> set rels" unfolding rels by simp
    from l1 sub2 have n2: "q \<notin> set p2" by blast
    from l1 left2 sub3 have n3: "q \<notin> set p3" by auto
    from l1 left2 left3 have n4: "q \<notin> set left3" by auto
    from n2 n3 n4 have "\<forall>r\<in>set rels. name r = q \<longrightarrow> r = release q ''major''"
      unfolding rels by (auto simp: release_def)
    with l1 m show "q \<notin> set left1 \<and> release q ''major'' \<in> set rels
           \<and> (\<forall>r\<in>set rels. name r = q \<longrightarrow> r = release q ''major'')"
      by blast
  qed
  from run declined accepted show ?thesis by blast
qed

theorem declined_first_major_stays_in_pool_witness:
  "majorDeclined (\<lambda>v b. Some (v = ''0.5.0''))
     (newMap [\<lparr>packageJson = \<lparr>PackageJSON.name = ''pkg-a'', version = ''0.5.0''\<rparr>, dir = ''a''\<rparr>,
              \<lparr>packageJson = \<lparr>PackageJSON.name = ''pkg-b'', version = ''2.0.0''\<rparr>, dir = ''b''\<rparr>])
     [''pkg-a'', ''pkg-b''] [False] = [''pkg-a'']
   \<and> (\<exists>w'. multiPackageReleases (\<lambda>v b. Some (v = ''0.5.0'')) []
       [\<lparr>packageJson = \<lparr>PackageJSON.name = ''pkg-a'', version = ''0.5.0''\<rparr>, dir = ''a''\<rparr>,
        \<lparr>packageJson = \<lparr>PackageJSON.name = ''pkg-b'', version = ''2.0.0''\<rparr>, dir = ''b''\<rparr>]
       (session [[''pkg-a'', ''pkg-b''], [''pkg-a'', ''pkg-b''], [], []] [False] [] [] [])
       = Inr ([release ''pkg-b'' ''major'', release ''pkg-a'' ''none''], w')
     \<and> (\<exists>evs1 evs2.
           trace w' = [AskCheckboxPlus ''Which packages would you like to include?''
                         [(''unchanged packages'', [''pkg-a'', ''pkg-b''])],
                       AskCheckboxPlus (getBumpTypeTitle ''major'')
                         [(''all packages'', [''pkg-a'', ''pkg-b''])]] @ evs1
                 @ AskCheckboxPlus (getBumpTypeTitle ''minor'') [(''all packages'', [''pkg-a''])] # evs2))"
proof -
  let ?lt = "\<lambda>v (b::string). Some (v = ''0.5.0'')"
  let ?pkgs = "[\<lparr>packageJson = \<lparr>PackageJSON.name = ''pkg-a'', version = ''0.5.0''\<rparr>, dir = ''a''\<rparr>,
        \<lparr>packageJson = \<lparr>PackageJSON.name = ''pkg-b'', version = ''2.0.0''\<rparr>, dir = ''b''\<rparr>]"
  let ?start = "session [[''pkg-a'', ''pkg-b''], [''pkg-a'', ''pkg-b''], [], []] [False] [] [] []"
  let ?w = "\<lparr>checkboxAnswers = [[''pkg-a'', ''pkg-b''], [], []], confirmAnswers = [False],
             listAnswers = [], questionAnswers = [], editorAnswers = [],
             trace = [AskCheckboxPlus ''Which packages would you like to include?''
                        [(''unchanged packages'', [''pkg-a'', ''pkg-b''])]]\<rparr>"
  have g: "getPackagesToRelease [] ?pkgs ?start = Inr ([''pkg-a'', ''pkg-b''], ?w)"
    by (simp add: getPackagesToRelease_def defaultChoiceList_def askInitialReleaseQuestion_def
        askCheckboxPlus_def emit_def session_def)
  have known: "\<forall>q\<in>set [''pkg-a'', ''pkg-b'']. \<exists>pkgJson below. newMap ?pkgs q = Some pkgJson
                      \<and> ?lt (version pkgJson) ''1.0.0'' = Some below"
    by (simp add: newMap_def)
  have cb: "checkboxAnswers ?w = [''pkg-a'', ''pkg-b''] # [] # [] # []" by simp
  have acc: "[''pkg-b''] = majorAccepted ?lt (newMap ?pkgs)
                 [''pkg-a'', ''pkg-b''] (confirmAnswers ?w)"
    by (simp add: newMap_def)
  have left1: "[''pkg-a''] = filter (\<lambda>x. x \<notin> set [''pkg-b'']) (newSet [''pkg-a'', ''pkg-b''])"
    by (simp add: newSet_def setAdd_def)
  have enough: "length (firstMajors ?lt (newMap ?pkgs) [''pkg-a'', ''pkg-b'']) \<le> length (confirmAnswers ?w)"
    by (simp add: firstMajors_def newMap_def)
  from declined_first_major_stays_in_pool
    [OF g known cb, of "[''pkg-a'', ''pkg-b'']" "[]" "[]" "[''pkg-b'']" "[''pkg-a'']" "[''pkg-a'']"
       "[''pkg-a'']" "[release ''pkg-b'' ''major'', release ''pkg-a'' ''none'']",
     OF _ _ _ acc left1 _ _ _ _ _ _ _ enough]
  have "\<exists>w'. multiPackageReleases ?lt [] ?pkgs ?start
                = Inr ([release ''pkg-b'' ''major'', release ''pkg-a'' ''none''], w')
            \<and> ([''pkg-a''] \<noteq> [] \<longrightarrow>
                 (\<exists>evs1 evs2. trace w' = trace ?w
                     @ AskCheckboxPlus (getBumpTypeTitle ''major'')
                         [(''all packages'', newSet [''pkg-a'', ''pkg-b''])] # evs1
                     @ AskCheckboxPlus (getBumpTypeTitle ''minor'') [(''all packages'', [''pkg-a''])] # evs2))"
    by simp
  then show ?thesis
    by (simp add: newSet_def setAdd_def newMap_def)
qed

end
